theory Spec2Isabelle
  imports Main
begin

section \<open>JavaScript values and JSON text\<close>

text \<open>
  The view of \<^verbatim>\<open>mapview.js\<close> moves JavaScript values between a notebook model,
  whose attributes are mostly strings holding JSON text, and a mapping library.
  A value is modelled by the members \<^verbatim>\<open>JSON.stringify\<close> sees. The view never
  computes with a number it is handed (coordinates, zoom levels and opacities are passed
  through), so a number is carried as the decimal literal that denotes it. Strings are
  sequences of code units below 256. A member list keeps insertion order.
\<close>

datatype json =
    JUndefined
  | JNull
  | JBool bool
  | JNum string
  | JStr string
  | JArr "json list"
  | JObj "(string \<times> json) list"

datatype js_error = SyntaxError | TypeError | ReferenceError

text \<open>Property assignment \<^verbatim>\<open>o[k] = v\<close> on an object: an existing member keeps its place.\<close>

fun obj_set :: "string \<Rightarrow> json \<Rightarrow> (string \<times> json) list \<Rightarrow> (string \<times> json) list" where
  "obj_set k v [] = [(k, v)]"
| "obj_set k v (m # ms) = (if fst m = k then (k, v) # ms else m # obj_set k v ms)"

text \<open>
  The member read \<^verbatim>\<open>o.k\<close>, for the member names the view reads from parsed JSON
  (none of them names a built-in member of a string, number, boolean or array):
  reading from \<^verbatim>\<open>undefined\<close> or \<^verbatim>\<open>null\<close> throws a TypeError, a missing member
  reads as \<^verbatim>\<open>undefined\<close>.
\<close>

fun js_get :: "json \<Rightarrow> string \<Rightarrow> js_error + json" where
  "js_get JUndefined k = Inl TypeError"
| "js_get JNull k = Inl TypeError"
| "js_get (JObj ms) k = (case map_of ms k of None \<Rightarrow> Inr JUndefined | Some v \<Rightarrow> Inr v)"
| "js_get v k = Inr JUndefined"

subsection \<open>JSON.stringify\<close>

definition hexdigit :: "nat \<Rightarrow> char" where
  "hexdigit n = char_of (if n < 10 then 48 + n else 87 + n)"

definition escape_char :: "char \<Rightarrow> string" where
  "escape_char c =
     (if c = CHR 0x22 then [CHR 0x5C, CHR 0x22]
      else if c = CHR 0x5C then [CHR 0x5C, CHR 0x5C]
      else if c = CHR 0x08 then [CHR 0x5C, CHR ''b'']
      else if c = CHR 0x0C then [CHR 0x5C, CHR ''f'']
      else if c = CHR 0x0A then [CHR 0x5C, CHR ''n'']
      else if c = CHR 0x0D then [CHR 0x5C, CHR ''r'']
      else if c = CHR 0x09 then [CHR 0x5C, CHR ''t'']
      else if (of_char c :: nat) < 32
        then [CHR 0x5C, CHR ''u'', CHR ''0'', CHR ''0'',
              hexdigit ((of_char c :: nat) div 16), hexdigit ((of_char c :: nat) mod 16)]
      else [c])"

definition quote :: "string \<Rightarrow> string" where
  "quote s = CHR 0x22 # concat (map escape_char s) @ [CHR 0x22]"

fun join :: "string \<Rightarrow> string list \<Rightarrow> string" where
  "join sep [] = []"
| "join sep [x] = x"
| "join sep (x # y # ys) = x @ sep @ join sep (y # ys)"

text \<open>
  The serialisation of a value in value position: an \<^verbatim>\<open>undefined\<close> array element
  is written \<^verbatim>\<open>null\<close>, an object member whose value is \<^verbatim>\<open>undefined\<close> is left out.
\<close>

fun str_json :: "json \<Rightarrow> string"
  and str_elems :: "json list \<Rightarrow> string list"
  and str_members :: "(string \<times> json) list \<Rightarrow> string list" where
  "str_json JUndefined = ''null''"
| "str_json JNull = ''null''"
| "str_json (JBool b) = (if b then ''true'' else ''false'')"
| "str_json (JNum n) = n"
| "str_json (JStr s) = quote s"
| "str_json (JArr xs) = ''['' @ join '','' (str_elems xs) @ '']''"
| "str_json (JObj ms) = ''{'' @ join '','' (str_members ms) @ ''}''"
| "str_elems [] = []"
| "str_elems (x # xs) = str_json x # str_elems xs"
| "str_members [] = []"
| "str_members ((k, v) # ms) =
     (if v = JUndefined then str_members ms
      else (quote k @ '':'' @ str_json v) # str_members ms)"

text \<open>
  \<^verbatim>\<open>JSON.stringify(v)\<close> for an array or an object \<open>v\<close>, which is what every call
  of the view passes (for \<^verbatim>\<open>undefined\<close> itself JavaScript returns no text).
\<close>

definition JSON_stringify :: "json \<Rightarrow> string" where
  "JSON_stringify v = str_json v"

subsection \<open>JSON.parse\<close>

datatype token =
    TLBrace | TRBrace | TLBrack | TRBrack | TColon | TComma
  | TStr string | TNum string | TWord string

datatype lmode =
    LNormal
  | LWord string
  | LNum string
  | LStr string
  | LEsc string
  | LUni string string

definition is_digit :: "char \<Rightarrow> bool" where
  "is_digit c = (48 \<le> (of_char c :: nat) \<and> (of_char c :: nat) \<le> 57)"

definition is_lower :: "char \<Rightarrow> bool" where
  "is_lower c = (97 \<le> (of_char c :: nat) \<and> (of_char c :: nat) \<le> 122)"

definition is_json_space :: "char \<Rightarrow> bool" where
  "is_json_space c = (c = CHR 0x20 \<or> c = CHR 0x09 \<or> c = CHR 0x0A \<or> c = CHR 0x0D)"

definition is_numchar :: "char \<Rightarrow> bool" where
  "is_numchar c = (is_digit c \<or> c = CHR ''.'' \<or> c = CHR ''e'' \<or> c = CHR ''E''
                   \<or> c = CHR ''+'' \<or> c = CHR ''-'')"

definition hexval :: "char \<Rightarrow> nat option" where
  "hexval c =
     (if is_digit c then Some (of_char c - 48)
      else if 97 \<le> (of_char c :: nat) \<and> (of_char c :: nat) \<le> 102 then Some (of_char c - 87)
      else if 65 \<le> (of_char c :: nat) \<and> (of_char c :: nat) \<le> 70 then Some (of_char c - 55)
      else None)"

text \<open>The exponent part of a number literal: empty, or e, an optional sign, digits.\<close>

definition exp_ok :: "string \<Rightarrow> bool" where
  "exp_ok r =
     (case r of
        [] \<Rightarrow> True
      | e # r1 \<Rightarrow>
          (e = CHR ''e'' \<or> e = CHR ''E'') \<and>
          (let r2 = (case r1 of
                       [] \<Rightarrow> []
                     | s # t \<Rightarrow> if s = CHR ''+'' \<or> s = CHR ''-'' then t else r1)
           in r2 \<noteq> [] \<and> list_all is_digit r2))"

definition frac_ok :: "string \<Rightarrow> bool" where
  "frac_ok r =
     (case r of
        [] \<Rightarrow> True
      | d # r1 \<Rightarrow>
          if d = CHR ''.''
          then takeWhile is_digit r1 \<noteq> [] \<and> exp_ok (dropWhile is_digit r1)
          else exp_ok r)"

text \<open>The JSON number grammar: -? (0 | [1-9][0-9]*) (.[0-9]+)? ([eE][+-]?[0-9]+)?\<close>

definition is_json_number :: "string \<Rightarrow> bool" where
  "is_json_number s =
     (let s1 = (case s of [] \<Rightarrow> [] | c # t \<Rightarrow> if c = CHR ''-'' then t else s);
          ds = takeWhile is_digit s1
      in ds \<noteq> [] \<and> (if hd ds = CHR ''0'' then length ds = 1 else True)
         \<and> frac_ok (dropWhile is_digit s1))"

definition is_json_word :: "string \<Rightarrow> bool" where
  "is_json_word w = (w = ''true'' \<or> w = ''false'' \<or> w = ''null'')"

text \<open>The lexer reads one character at a time; the tokens are collected in reverse.\<close>

definition punctuation :: "char \<Rightarrow> token option" where
  "punctuation c =
     (if c = CHR ''{'' then Some TLBrace
      else if c = CHR ''}'' then Some TRBrace
      else if c = CHR ''['' then Some TLBrack
      else if c = CHR '']'' then Some TRBrack
      else if c = CHR '':'' then Some TColon
      else if c = CHR '','' then Some TComma
      else None)"

definition lex_normal :: "char \<Rightarrow> token list \<Rightarrow> (lmode \<times> token list) option" where
  "lex_normal c toks =
     (if is_json_space c then Some (LNormal, toks)
      else (case punctuation c of
              Some t \<Rightarrow> Some (LNormal, t # toks)
            | None \<Rightarrow>
                if c = CHR 0x22 then Some (LStr [], toks)
                else if c = CHR ''-'' \<or> is_digit c then Some (LNum [c], toks)
                else if is_lower c then Some (LWord [c], toks)
                else None))"

fun lex_step :: "lmode \<times> token list \<Rightarrow> char \<Rightarrow> (lmode \<times> token list) option" where
  "lex_step (LNormal, toks) c = lex_normal c toks"
| "lex_step (LWord w, toks) c =
     (if is_lower c then Some (LWord (w @ [c]), toks)
      else if is_json_word w then lex_normal c (TWord w # toks)
      else None)"
| "lex_step (LNum n, toks) c =
     (if is_numchar c then Some (LNum (n @ [c]), toks)
      else if is_json_number n then lex_normal c (TNum n # toks)
      else None)"
| "lex_step (LStr s, toks) c =
     (if c = CHR 0x22 then Some (LNormal, TStr s # toks)
      else if c = CHR 0x5C then Some (LEsc s, toks)
      else if (of_char c :: nat) < 32 then None
      else Some (LStr (s @ [c]), toks))"
| "lex_step (LEsc s, toks) c =
     (if c = CHR 0x22 \<or> c = CHR 0x5C \<or> c = CHR ''/'' then Some (LStr (s @ [c]), toks)
      else if c = CHR ''b'' then Some (LStr (s @ [CHR 0x08]), toks)
      else if c = CHR ''f'' then Some (LStr (s @ [CHR 0x0C]), toks)
      else if c = CHR ''n'' then Some (LStr (s @ [CHR 0x0A]), toks)
      else if c = CHR ''r'' then Some (LStr (s @ [CHR 0x0D]), toks)
      else if c = CHR ''t'' then Some (LStr (s @ [CHR 0x09]), toks)
      else if c = CHR ''u'' then Some (LUni s [], toks)
      else None)"
| "lex_step (LUni s h, toks) c =
     (case hexval c of
        None \<Rightarrow> None
      | Some d \<Rightarrow>
          if length h < 3 then Some (LUni s (h @ [c]), toks)
          else if take 2 h = ''00''
          then (case hexval (last h) of
                  None \<Rightarrow> None
                | Some e \<Rightarrow> Some (LStr (s @ [char_of (16 * e + d)]), toks))
          else None)"

fun lex_run :: "lmode \<times> token list \<Rightarrow> string \<Rightarrow> (lmode \<times> token list) option" where
  "lex_run st [] = Some st"
| "lex_run st (c # cs) = (case lex_step st c of None \<Rightarrow> None | Some st' \<Rightarrow> lex_run st' cs)"

fun lex_finish :: "lmode \<times> token list \<Rightarrow> token list option" where
  "lex_finish (LNormal, toks) = Some (rev toks)"
| "lex_finish (LWord w, toks) = (if is_json_word w then Some (rev (TWord w # toks)) else None)"
| "lex_finish (LNum n, toks) = (if is_json_number n then Some (rev (TNum n # toks)) else None)"
| "lex_finish (m, toks) = None"

definition lex :: "string \<Rightarrow> token list option" where
  "lex s = (case lex_run (LNormal, []) s of None \<Rightarrow> None | Some st \<Rightarrow> lex_finish st)"

text \<open>
  The parser is a stack machine over the tokens: a frame per open array or object,
  and a phase saying what may come next.
\<close>

datatype frame = ArrF "json list" | ObjF "(string \<times> json) list" string

datatype phase = PValue | PValueOrEnd | PKeyOrEnd | PKey | PColon | PAfter | PDone json

fun complete :: "json \<Rightarrow> frame list \<Rightarrow> frame list \<times> phase" where
  "complete v [] = ([], PDone v)"
| "complete v (ArrF xs # fs) = (ArrF (xs @ [v]) # fs, PAfter)"
| "complete v (ObjF ms k # fs) = (ObjF (obj_set k v ms) k # fs, PAfter)"

definition word_value :: "string \<Rightarrow> json" where
  "word_value w = (if w = ''true'' then JBool True else if w = ''false'' then JBool False else JNull)"

fun close_frame :: "token \<Rightarrow> frame list \<Rightarrow> (frame list \<times> phase) option" where
  "close_frame TRBrack (ArrF xs # fs) = Some (complete (JArr xs) fs)"
| "close_frame TRBrace (ObjF ms k # fs) = Some (complete (JObj ms) fs)"
| "close_frame t fs = None"

fun start_value :: "token \<Rightarrow> frame list \<Rightarrow> (frame list \<times> phase) option" where
  "start_value (TStr s) fs = Some (complete (JStr s) fs)"
| "start_value (TNum n) fs = Some (complete (JNum n) fs)"
| "start_value (TWord w) fs = Some (complete (word_value w) fs)"
| "start_value TLBrack fs = Some (ArrF [] # fs, PValueOrEnd)"
| "start_value TLBrace fs = Some (ObjF [] [] # fs, PKeyOrEnd)"
| "start_value t fs = None"

fun start_key :: "token \<Rightarrow> frame list \<Rightarrow> (frame list \<times> phase) option" where
  "start_key (TStr k) (ObjF ms k0 # fs) = Some (ObjF ms k # fs, PColon)"
| "start_key t fs = None"

fun parse_step :: "frame list \<times> phase \<Rightarrow> token \<Rightarrow> (frame list \<times> phase) option" where
  "parse_step (fs, PValue) t = start_value t fs"
| "parse_step (fs, PValueOrEnd) t = (if t = TRBrack then close_frame t fs else start_value t fs)"
| "parse_step (fs, PKeyOrEnd) t = (if t = TRBrace then close_frame t fs else start_key t fs)"
| "parse_step (fs, PKey) t = start_key t fs"
| "parse_step (fs, PColon) t = (if t = TColon then Some (fs, PValue) else None)"
| "parse_step (fs, PAfter) t =
     (if t = TComma
      then (case fs of
              ArrF xs # fs' \<Rightarrow> Some (fs, PValue)
            | ObjF ms k # fs' \<Rightarrow> Some (fs, PKey)
            | [] \<Rightarrow> None)
      else close_frame t fs)"
| "parse_step (fs, PDone v) t = None"

fun parse_run :: "frame list \<times> phase \<Rightarrow> token list \<Rightarrow> (frame list \<times> phase) option" where
  "parse_run st [] = Some st"
| "parse_run st (t # ts) =
     (case parse_step st t of None \<Rightarrow> None | Some st' \<Rightarrow> parse_run st' ts)"

text \<open>\<^verbatim>\<open>JSON.parse(s)\<close>: the value, or the SyntaxError it throws.\<close>

definition JSON_parse :: "string \<Rightarrow> js_error + json" where
  "JSON_parse s =
     (case lex s of
        None \<Rightarrow> Inl SyntaxError
      | Some ts \<Rightarrow>
          (case parse_run ([], PValue) ts of
             Some ([], PDone v) \<Rightarrow> Inr v
           | _ \<Rightarrow> Inl SyntaxError))"

section \<open>The view and what surrounds it\<close>

text \<open>
  The view object holds a reference to the notebook model, and, once they exist, to the
  map and to the draw toolbar of the mapping library. What the view does to the library
  is recorded as the sequence of calls it makes; what the library tells the view arrives
  as the payload of an event or through the fields of \<open>library\<close>. Console output is
  not modelled.
\<close>

text \<open>\<^verbatim>\<open>String.prototype.trim\<close>, on code units below 256.\<close>

definition is_js_space :: "char \<Rightarrow> bool" where
  "is_js_space c = ((of_char c :: nat) \<in> {9, 10, 11, 12, 13, 32, 160})"

definition trim :: "string \<Rightarrow> string" where
  "trim s = rev (dropWhile is_js_space (rev (dropWhile is_js_space s)))"

text \<open>\<^verbatim>\<open>s.indexOf("{") > -1\<close>\<close>

definition has_brace :: "string \<Rightarrow> bool" where
  "has_brace s = (CHR ''{'' \<in> set s)"

text \<open>The argument of \<^verbatim>\<open>this.send\<close>: \<^verbatim>\<open>{event: ..., message: ...}\<close>.\<close>

record msg =
  event :: string
  message :: json

text \<open>\<^verbatim>\<open>new Date(s)\<close>: the date the platform reads from the text \<open>s\<close>.\<close>

datatype date = Date string

record TimeExtent =
  startTime :: date
  endTime :: date

record Extent =
  xmin :: json
  xmax :: json
  ymin :: json
  ymax :: json
  spatialReference :: json

text \<open>\<^verbatim>\<open>new SpatialReference({ wkid: 4326 })\<close>\<close>

definition SpatialReference :: "string \<Rightarrow> json" where
  "SpatialReference w = JObj [(''wkid'', JNum w)]"

text \<open>The symbol \<^verbatim>\<open>mode_changed\<close> gives a graphic drawn from JSON that has none.\<close>

datatype symbol_choice =
    KeepSymbol
  | RedLine            \<comment> \<open>SimpleLineSymbol(STYLE_SOLID, Color([255, 0, 0, 0.5]), 3)\<close>
  | OrangeFill         \<comment> \<open>SimpleFillSymbol, outline black 0.5 width 1, colour [255, 127, 0, 0.7]\<close>
  | PinkMarker string  \<comment> \<open>PictureMarkerSymbol(path, 32, 32)\<close>
  | NoSymbol

text \<open>A renderer of a layer: what \<^verbatim>\<open>toJson()\<close> returns and its \<^verbatim>\<open>declaredClass\<close>.\<close>

record renderer =
  toJson :: json
  declaredClass :: json
  members :: json

text \<open>
  A layer as an event handler finds it: the members the view reads. \<open>layer_renderer\<close>
  is \<open>None\<close> when \<^verbatim>\<open>layer.renderer\<close> is not set.
\<close>

record layer =
  layer_id :: json
  normalization :: json
  refreshInterval :: json
  layer_url :: json
  layer_renderer :: "renderer option"
  bandIds :: json
  mosaicRule :: json
  renderingRule :: json

record basemap_layer =
  basemap_url :: json
  resourceInfo :: string  \<comment> \<open>the text \<^verbatim>\<open>JSON.parse\<close> is given\<close>

text \<open>The layer classes \<^verbatim>\<open>layer_changed\<close> constructs.\<close>

datatype layer_kind =
    KMLLayer
  | ArcGISTiledMapServiceLayer
  | ArcGISDynamicMapServiceLayer
  | VectorTileLayer
  | FeatureLayer
  | ArcGISImageServiceLayer

text \<open>
  The calls the view makes on the library, the page and the notebook. A layer the view
  constructs is named by a number. \<open>SetTimeout n kind options basemap\<close> is the timer
  that, half a second later, asks smart mapping for a renderer of the given kind for
  layer \<open>n\<close>; \<open>SmartMapping\<close> is that request made at once.
  \<open>NewFeatureCollectionLayer n spec options\<close> is \<^verbatim>\<open>new FeatureLayer(spec, {})\<close> when
  \<open>options\<close> is \<open>None\<close> and \<^verbatim>\<open>new FeatureLayer(spec, Object.assign({mode:
  FeatureLayer.MODE_SNAPSHOT}, o))\<close> when it is \<open>Some o\<close>.
\<close>

datatype call =
    HeadAppendStylesheet string
  | BodyAddClass string
  | KeyboardDisable
  | KeyboardEnable
  | CorsEnabledServersPush json
  | RegisterServers json json
  | GenerateToken json json json json
  | RegisterToken json json json json json
  | SetEsriBasemap string json
  | SetArcgisUrl string
  | CreateMap string
  | NewMapExtent string Extent
  | NewMapCenter string "json list" json
  | DisableKeyboardNavigation
  | DisableMapNavigation
  | EnableMapNavigation
  | NewDraw
  | ToolbarDeactivate
  | ToolbarActivate string
  | GraphicsAdd json json
  | GraphicsAddFromJson json symbol_choice
  | GraphicsClear
  | RemoveAllLayers
  | RemoveLayer string
  | SetZoom json
  | CenterAt "json list"
  | SetExtent Extent
  | SetTimeExtent TimeExtent
  | SetBasemap string
  | NewLayer nat layer_kind json json
  | NewFeatureCollectionLayer nat json "json option"
  | AddLayer nat
  | LayerSetOpacity nat json
  | LayerSetDefinitionExpression nat json
  | LayerSetHeatmapRenderer nat json
  | LayerSetRendererFromJson nat json
  | LayerSetInfoTemplate nat
  | SetTimeout nat string json string
  | SmartMapping nat string json string

text \<open>
  The functions \<^verbatim>\<open>layer_changed\<close> attaches to the events of a layer it has added,
  with the variables they close over.
\<close>

datatype closure =
    KmlLoad
  | FeatureLoadSync
  | FeatureRendererChange "json option"
  | FeatureLoadTemplate json string
  | ImageryLoadSync

text \<open>
  What the library and the page answer when the view asks. Arithmetic on numbers is the
  platform's. Calls into the library are taken to return.
\<close>

record library =
  new_SimpleFillSymbol :: json            \<comment> \<open>the object \<^verbatim>\<open>new SimpleFillSymbol()\<close> is\<close>
  Graphic_symbol :: "json \<Rightarrow> json"        \<comment> \<open>\<^verbatim>\<open>new Graphic(j).symbol\<close>\<close>
  Graphic_geometry :: "json \<Rightarrow> json"      \<comment> \<open>\<^verbatim>\<open>new Graphic(j).geometry\<close>\<close>
  nbextensionPath :: string
  location_protocol :: string             \<comment> \<open>\<^verbatim>\<open>window.location.protocol\<close>\<close>
  getBasemap :: string                    \<comment> \<open>\<^verbatim>\<open>map.getBasemap()\<close>\<close>
  collection_layer :: "json \<Rightarrow> layer"     \<comment> \<open>the layer built from a feature collection\<close>
  minus_one_key :: "json \<Rightarrow> string"       \<comment> \<open>the property name \<^verbatim>\<open>String(v - 1)\<close>\<close>
  is_minus_one :: "json \<Rightarrow> bool"          \<comment> \<open>\<^verbatim>\<open>v == -1\<close>\<close>

record view =
  attrs :: "string \<Rightarrow> string"     \<comment> \<open>the string-valued attributes of \<^verbatim>\<open>this.model\<close>\<close>
  center :: "json list"           \<comment> \<open>the array stored as attribute \<^verbatim>\<open>center\<close>\<close>
  zoom :: json
  gallerybasemaps :: "string list"
  gbasemaps_def :: "json list"
  kernel :: "string \<Rightarrow> string"    \<comment> \<open>the string-valued attributes as last pushed by \<^verbatim>\<open>touch\<close>\<close>
  sent :: "msg list"
  calls :: "call list"
  has_map :: bool                 \<comment> \<open>\<^verbatim>\<open>that.map\<close> is set\<close>
  has_toolbar :: bool             \<comment> \<open>\<^verbatim>\<open>that.toolbar\<close> is set\<close>
  model_on :: "string list"       \<comment> \<open>attributes whose change the view listens to\<close>
  map_on :: "string list"         \<comment> \<open>events of the current map that have a handler\<close>
  toolbar_on :: "string list"
  token_pending :: "(json \<times> json) list"  \<comment> \<open>token requests not answered yet: server and user id\<close>
  createMap_pending :: nat               \<comment> \<open>web map requests not answered yet\<close>
  bRend :: bool                          \<comment> \<open>the page globals \<^verbatim>\<open>bRend\<close> and \<^verbatim>\<open>bSRend\<close>\<close>
  bSRend :: bool
  next_layer :: nat                      \<comment> \<open>the number the next constructed layer gets\<close>
  layer_on :: "(nat \<times> string \<times> closure) list"  \<comment> \<open>handlers attached to layer events\<close>
  lib :: library

text \<open>A handler either runs to its end or throws, keeping what it had done by then.\<close>

datatype 'a outcome = Done 'a | Threw js_error 'a

fun state_of :: "'a outcome \<Rightarrow> 'a" where
  "state_of (Done s) = s"
| "state_of (Threw e s) = s"

fun andthen :: "'a outcome \<Rightarrow> ('a \<Rightarrow> 'a outcome) \<Rightarrow> 'a outcome" where
  "andthen (Done s) f = f s"
| "andthen (Threw e s) f = Threw e s"

text \<open>Running the handlers registered for one event, in order, up to the first throw.\<close>

fun fire :: "('a \<Rightarrow> 'a outcome) list \<Rightarrow> 'a \<Rightarrow> 'a outcome" where
  "fire [] s = Done s"
| "fire (h # hs) s = andthen (h s) (fire hs)"

definition do_call :: "call \<Rightarrow> view \<Rightarrow> view" where
  "do_call c s = s\<lparr>calls := calls s @ [c]\<rparr>"

text \<open>\<^verbatim>\<open>this.model.set(k, v)\<close> for an attribute no handler of the view listens to.\<close>

definition model_set :: "string \<Rightarrow> string \<Rightarrow> view \<Rightarrow> view" where
  "model_set k v s = s\<lparr>attrs := (attrs s)(k := v)\<rparr>"

text \<open>\<^verbatim>\<open>this.touch()\<close>: the attribute values set so far are pushed to the kernel.\<close>

definition touch :: "view \<Rightarrow> view" where
  "touch s = s\<lparr>kernel := attrs s\<rparr>"

text \<open>\<^verbatim>\<open>this.send(m)\<close>\<close>

definition send :: "string \<Rightarrow> json \<Rightarrow> view \<Rightarrow> view" where
  "send e m s = s\<lparr>sent := sent s @ [\<lparr>event = e, message = m\<rparr>]\<rparr>"

section \<open>The handlers\<close>

subsection \<open>Incoming events from the model\<close>

definition zoom_changed :: "view \<Rightarrow> view outcome" where
  "zoom_changed s =
     (if has_map s then Done (do_call (SetZoom (zoom s)) s) else Threw TypeError s)"

text \<open>
  The symbol for a graphic built from JSON: kept when the graphic has one, chosen by
  the geometry type otherwise; reading the type of a missing geometry throws.
\<close>

definition choose_symbol :: "library \<Rightarrow> json \<Rightarrow> js_error + symbol_choice" where
  "choose_symbol l drawgraphic =
     (if Graphic_symbol l drawgraphic = JNull \<or> Graphic_symbol l drawgraphic = JUndefined
      then (case js_get (Graphic_geometry l drawgraphic) ''type'' of
              Inl e \<Rightarrow> Inl e
            | Inr t \<Rightarrow>
                if t = JStr ''polyline'' then Inr RedLine
                else if t = JStr ''polygon'' then Inr OrangeFill
                else if t = JStr ''point''
                  then Inr (PinkMarker (nbextensionPath l @ ''/icons/pink.png''))
                else if t = JStr ''multipoint''
                  then Inr (PinkMarker (nbextensionPath l @ ''/icons/pink.png''))
                else Inr NoSymbol)
      else Inr KeepSymbol)"

definition mode_changed :: "view \<Rightarrow> view outcome" where
  "mode_changed s =
     (if attrs s ''mode'' = ''navigate''
      then (if has_toolbar s then Done (do_call ToolbarDeactivate s) else Threw TypeError s)
      else if attrs s ''mode'' = ''###clear_graphics''
      then (if has_map s
            then Done (model_set ''_js_interactive_drawn_graphic'' [] (do_call GraphicsClear s))
            else Threw TypeError s)
      else if attrs s ''mode'' = ''###remove_layers''
      then (if has_map s then Done (do_call RemoveAllLayers s) else Threw TypeError s)
      else if has_brace (attrs s ''mode'')
      then (case JSON_parse (attrs s ''mode'') of
              Inl e \<Rightarrow> Threw e s
            | Inr drawgraphic \<Rightarrow>
                (case choose_symbol (lib s) drawgraphic of
                   Inl e \<Rightarrow> Threw e s
                 | Inr symb \<Rightarrow>
                     if has_map s then Done (do_call (GraphicsAddFromJson drawgraphic symb) s)
                     else Threw TypeError s))
      else (if has_toolbar s then Done (do_call (ToolbarActivate (attrs s ''mode'')) s)
            else Threw TypeError s))"

definition remove_layer :: "view \<Rightarrow> view outcome" where
  "remove_layer s =
     (if has_map s then Done (do_call (RemoveLayer (attrs s ''_layerId_to_remove'')) s)
      else Threw TypeError s)"

text \<open>
  \<^verbatim>\<open>this.map.centerAt(this.model.get('center').reverse())\<close>: \<^verbatim>\<open>reverse\<close> works
  in place on the array the model stores, and returns it.
\<close>

definition center_changed :: "view \<Rightarrow> view outcome" where
  "center_changed s =
     (if has_map s
      then Done (do_call (CenterAt (rev (center s))) (s\<lparr>center := rev (center s)\<rparr>))
      else Threw TypeError s)"

text \<open>The extent built from parsed JSON text, as \<^verbatim>\<open>extent_changed\<close> and \<^verbatim>\<open>load_map\<close> do.\<close>

definition extent_of :: "string \<Rightarrow> js_error + Extent" where
  "extent_of text =
     (case JSON_parse text of
        Inl e \<Rightarrow> Inl e
      | Inr ext \<Rightarrow>
          (case js_get ext ''xmin'' of
             Inl e \<Rightarrow> Inl e
           | Inr x0 \<Rightarrow>
               Inr \<lparr>xmin = x0,
                    xmax = (case js_get ext ''xmax'' of Inr v \<Rightarrow> v | Inl e \<Rightarrow> JUndefined),
                    ymin = (case js_get ext ''ymin'' of Inr v \<Rightarrow> v | Inl e \<Rightarrow> JUndefined),
                    ymax = (case js_get ext ''ymax'' of Inr v \<Rightarrow> v | Inl e \<Rightarrow> JUndefined),
                    spatialReference = SpatialReference ''4326''\<rparr>))"

definition extent_changed :: "view \<Rightarrow> view outcome" where
  "extent_changed s =
     (case extent_of (attrs s ''_extent'') of
        Inl e \<Rightarrow> Threw e s
      | Inr newExtent \<Rightarrow>
          if has_map s then Done (do_call (SetExtent newExtent) s) else Threw TypeError s)"

definition start_time_changed :: "view \<Rightarrow> view outcome" where
  "start_time_changed s =
     (if attrs s ''start_time'' \<noteq> [] \<and> trim (attrs s ''start_time'') \<noteq> []
      then (if has_map s
            then Done (do_call (SetTimeExtent \<lparr>startTime = Date (attrs s ''start_time''),
                                               endTime = Date (attrs s ''end_time'')\<rparr>) s)
            else Threw TypeError s)
      else Done s)"

definition end_time_changed :: "view \<Rightarrow> view outcome" where
  "end_time_changed s =
     (if attrs s ''end_time'' \<noteq> [] \<and> trim (attrs s ''end_time'') \<noteq> []
      then (if has_map s
            then Done (do_call (SetTimeExtent \<lparr>startTime = Date (attrs s ''start_time''),
                                               endTime = Date (attrs s ''end_time'')\<rparr>) s)
            else Threw TypeError s)
      else Done s)"

text \<open>
  The loop of \<^verbatim>\<open>gallerybasemaps_changed\<close> and \<^verbatim>\<open>load_map\<close>:
  \<^verbatim>\<open>esriBasemaps[bms[i]] = {baseMapLayers: bmdefs[i], title: bms[i]}\<close> for each index;
  a definition that is missing reads as \<^verbatim>\<open>undefined\<close>.
\<close>

fun register_basemaps :: "string list \<Rightarrow> json list \<Rightarrow> view \<Rightarrow> view" where
  "register_basemaps [] bmdefs s = s"
| "register_basemaps (b # bms) bmdefs s =
     register_basemaps bms (tl bmdefs)
       (do_call (SetEsriBasemap b (case bmdefs of [] \<Rightarrow> JUndefined | d # ds \<Rightarrow> d)) s)"

definition gallerybasemaps_changed :: "view \<Rightarrow> view outcome" where
  "gallerybasemaps_changed s =
     (if length (gallerybasemaps s) > 0
      then Done (register_basemaps (gallerybasemaps s) (gbasemaps_def s) s)
      else Done s)"

text \<open>
  \<^verbatim>\<open>basemap_changed\<close> sets the basemap and attaches a handler to the map's next
  basemap-change event.
\<close>

definition basemap_changed :: "view \<Rightarrow> view outcome" where
  "basemap_changed s =
     (if has_map s
      then Done ((do_call (SetBasemap (attrs s ''_basemap'')) s)
                   \<lparr>map_on := map_on s @ [''basemap-change'']\<rparr>)
      else Threw TypeError s)"

text \<open>
  The title of one basemap layer: \<^verbatim>\<open>JSON.parse(layer.resourceInfo).documentInfo.Title\<close>
  inside \<^verbatim>\<open>try\<close>, the model's \<^verbatim>\<open>_basemap\<close> in \<^verbatim>\<open>catch\<close>.
\<close>

definition basemap_title :: "string \<Rightarrow> basemap_layer \<Rightarrow> json" where
  "basemap_title basemap l =
     (case JSON_parse (resourceInfo l) of
        Inl e \<Rightarrow> JStr basemap
      | Inr resource_info \<Rightarrow>
          (case js_get resource_info ''documentInfo'' of
             Inl e \<Rightarrow> JStr basemap
           | Inr documentInfo \<Rightarrow>
               (case js_get documentInfo ''Title'' of
                  Inl e \<Rightarrow> JStr basemap
                | Inr title \<Rightarrow> title)))"

definition basemap_dict :: "string \<Rightarrow> basemap_layer \<Rightarrow> json" where
  "basemap_dict basemap l =
     JObj [(''url'', basemap_url l), (''title'', basemap_title basemap l)]"

text \<open>
  The handler of the basemap-change event, given the basemap layers the map has then
  (\<^verbatim>\<open>this.map.getLayer(this.map.basemapLayerIds[i])\<close> for each \<open>i\<close>). It removes itself.
\<close>

definition on_basemap_change :: "basemap_layer list \<Rightarrow> view \<Rightarrow> view outcome" where
  "on_basemap_change layers s =
     Done (touch (model_set ''_js_basemap''
                    (JSON_stringify (JArr (map (basemap_dict (attrs s ''_basemap'')) layers)))
                    (s\<lparr>map_on := remove1 ''basemap-change'' (map_on s)\<rparr>)))"

subsection \<open>Outgoing events to the model\<close>

definition mouse_clicked :: "json \<Rightarrow> view \<Rightarrow> view outcome" where
  "mouse_clicked geometry s = Done (send ''mouseclick'' geometry s)"

text \<open>
  \<^verbatim>\<open>this.model.set('mode', 'navigate')\<close> changes an attribute the view listens to:
  when the value is new, the model calls \<^verbatim>\<open>mode_changed\<close> once for each registration
  before \<^verbatim>\<open>set\<close> returns.
\<close>

definition draw_end :: "json \<Rightarrow> view \<Rightarrow> view outcome" where
  "draw_end geometry s =
     andthen
       (if attrs s ''mode'' = ''navigate'' then Done s
        else fire (map (\<lambda>k. mode_changed) (filter (\<lambda>k. k = ''mode'') (model_on s)))
               (model_set ''mode'' ''navigate'' s))
       (\<lambda>s1. Done (send ''draw-end'' geometry (touch s1)))"

definition extent_change :: "(string \<times> json) list \<Rightarrow> json \<Rightarrow> view \<Rightarrow> view outcome" where
  "extent_change extent zoomed s =
     Done (touch (model_set ''_jsextent'' (JSON_stringify (JObj extent)) s))"

text \<open>\<^verbatim>\<open>_handle_click\<close>\<close>

definition handle_click :: "view \<Rightarrow> view outcome" where
  "handle_click s = Done (send ''click'' (JStr ''xyz'') s)"

subsection \<open>Events of the map and of the draw toolbar\<close>

definition onExtentChange :: "(string \<times> json) list \<Rightarrow> json \<Rightarrow> view \<Rightarrow> view outcome" where
  "onExtentChange extent levelChange s = extent_change extent levelChange s"

text \<open>
  Reading a list attribute: the empty string stands for the empty list, anything else is
  parsed. \<^verbatim>\<open>push\<close> exists on arrays only.
\<close>

definition read_list :: "string \<Rightarrow> js_error + json" where
  "read_list text = (if text = [] then Inr (JArr []) else JSON_parse text)"

fun js_push :: "json \<Rightarrow> json \<Rightarrow> js_error + json" where
  "js_push (JArr xs) x = Inr (JArr (xs @ [x]))"
| "js_push v x = Inl TypeError"

definition append_to_list :: "string \<Rightarrow> json \<Rightarrow> view \<Rightarrow> view outcome" where
  "append_to_list k x s =
     (case read_list (attrs s k) of
        Inl e \<Rightarrow> Threw e s
      | Inr l \<Rightarrow>
          (case js_push l x of
             Inl e \<Rightarrow> Threw e s
           | Inr l2 \<Rightarrow> Done (touch (model_set k (JSON_stringify l2) s))))"

definition onDrawEnd :: "json \<Rightarrow> view \<Rightarrow> view outcome" where
  "onDrawEnd geometry s =
     (if \<not> has_map s then Threw TypeError s
      else if \<not> has_toolbar s
      then Threw TypeError (do_call (GraphicsAdd geometry (new_SimpleFillSymbol (lib s))) s)
      else andthen
             (draw_end geometry
                (do_call ToolbarDeactivate
                   (do_call (GraphicsAdd geometry (new_SimpleFillSymbol (lib s))) s)))
             (append_to_list ''_js_interactive_drawn_graphic''
                (JObj [(''geometry'', geometry), (''symbol'', new_SimpleFillSymbol (lib s))])))"

definition onMouseClick :: "json \<Rightarrow> view \<Rightarrow> view outcome" where
  "onMouseClick mapPoint s =
     (if has_map s then mouse_clicked mapPoint (do_call EnableMapNavigation s)
      else Threw TypeError s)"

subsection \<open>Rendering the view\<close>

text \<open>\<^verbatim>\<open>(x) && (x.trim() != '')\<close> for a string \<open>x\<close>\<close>

definition nonblank :: "string \<Rightarrow> bool" where
  "nonblank x = (x \<noteq> [] \<and> trim x \<noteq> [])"

text \<open>
  \<^verbatim>\<open>load_map\<close>: with a web map id the map is requested from the library and arrives
  later; otherwise a map is constructed at once, from \<^verbatim>\<open>_extent\<close> when that holds a
  brace and from \<^verbatim>\<open>center\<close> and \<^verbatim>\<open>zoom\<close> when not, and \<^verbatim>\<open>on_load\<close> is attached
  to its load event.
\<close>

definition load_map :: "view \<Rightarrow> view outcome" where
  "load_map s0 =
     (let s1 = do_call KeyboardDisable s0;
          s = (if length (gallerybasemaps s1) > 0
               then register_basemaps (gallerybasemaps s1) (gbasemaps_def s1) s1
               else s1)
      in if nonblank (attrs s ''id'')
         then Done ((do_call (CreateMap (attrs s ''id''))
                       (if nonblank (attrs s ''_arcgis_url'')
                        then do_call (SetArcgisUrl (attrs s ''_arcgis_url'')) s
                        else s))
                    \<lparr>createMap_pending := Suc (createMap_pending s)\<rparr>)
         else if has_brace (attrs s ''_extent'')
         then (case extent_of (attrs s ''_extent'') of
                 Inl e \<Rightarrow> Threw e s
               | Inr newExtent \<Rightarrow>
                   Done ((do_call (NewMapExtent (attrs s ''_basemap'') newExtent) s)
                           \<lparr>has_map := True, map_on := [''load'']\<rparr>))
         else Done ((do_call (NewMapCenter (attrs s ''_basemap'') (rev (center s)) (zoom s))
                       (s\<lparr>center := rev (center s)\<rparr>))
                    \<lparr>has_map := True, map_on := [''load'']\<rparr>))"

text \<open>The model change events \<^verbatim>\<open>render\<close> subscribes to, in its order.\<close>

definition observed :: "string list" where
  "observed = [''zoom'', ''mode'', ''_extent'', ''center'', ''_basemap'', ''_gallerybasemaps'',
               ''_addlayer'', ''start_time'', ''end_time'', ''_layerId_to_remove'']"

definition subscribe :: "view \<Rightarrow> view outcome" where
  "subscribe s = Done (s\<lparr>model_on := model_on s @ observed\<rparr>)"

text \<open>
  \<^verbatim>\<open>render\<close>: with token information the identity manager is asked for a token and the
  map is loaded by the continuation of that request; without, the map is loaded at once.
\<close>

definition render :: "view \<Rightarrow> view outcome" where
  "render s0 =
     (let s = do_call (BodyAddClass ''claro'')
                (do_call (HeadAppendStylesheet (nbextensionPath (lib s0) @ ''/custom.css'')) s0)
      in if nonblank (attrs s ''_token_info'')
         then (case JSON_parse (attrs s ''_token_info'') of
                 Inl e \<Rightarrow> Threw e s
               | Inr token \<Rightarrow>
                   (case js_get token ''server'' of
                      Inl e \<Rightarrow> Threw e s
                    | Inr server \<Rightarrow>
                        (let tokenurl = (case js_get token ''tokenurl'' of Inr v \<Rightarrow> v | Inl e \<Rightarrow> JUndefined);
                             userId = (case js_get token ''username'' of Inr v \<Rightarrow> v | Inl e \<Rightarrow> JUndefined);
                             password = (case js_get token ''password'' of Inr v \<Rightarrow> v | Inl e \<Rightarrow> JUndefined)
                         in subscribe
                              ((do_call (GenerateToken server tokenurl userId password)
                                  (do_call (RegisterServers server tokenurl)
                                     (do_call (CorsEnabledServersPush server) s)))
                               \<lparr>token_pending := token_pending s @ [(server, userId)]\<rparr>))))
         else andthen (load_map s) subscribe)"

text \<open>
  The continuation of \<^verbatim>\<open>generateToken\<close> when the request succeeds with \<open>response\<close>:
  the token is registered, then the map is loaded. A request that fails runs neither.
\<close>

definition token_resolved :: "json \<Rightarrow> json \<Rightarrow> json \<Rightarrow> view \<Rightarrow> view outcome" where
  "token_resolved server userId response s =
     (case js_get response ''token'' of
        Inl e \<Rightarrow> Threw e s
      | Inr tok \<Rightarrow>
          load_map
            (do_call (RegisterToken server userId tok
                        (case js_get response ''expires'' of Inr v \<Rightarrow> v | Inl e \<Rightarrow> JUndefined)
                        (case js_get response ''ssl'' of Inr v \<Rightarrow> v | Inl e \<Rightarrow> JUndefined)) s))"

subsection \<open>Adding layers\<close>

text \<open>The conversion of a value to a string, as \<^verbatim>\<open>JSON.parse\<close> and \<^verbatim>\<open>==\<close> apply it.\<close>

fun js_to_string :: "json \<Rightarrow> string"
  and elems_to_strings :: "json list \<Rightarrow> string list" where
  "js_to_string JUndefined = ''undefined''"
| "js_to_string JNull = ''null''"
| "js_to_string (JBool b) = (if b then ''true'' else ''false'')"
| "js_to_string (JNum n) = n"
| "js_to_string (JStr s) = s"
| "js_to_string (JArr xs) = join '','' (elems_to_strings xs)"
| "js_to_string (JObj ms) = ''[object Object]''"
| "elems_to_strings [] = []"
| "elems_to_strings (x # xs) =
     (if x = JUndefined \<or> x = JNull then [] else js_to_string x) # elems_to_strings xs"

text \<open>\<^verbatim>\<open>v == "t"\<close> for a text \<open>t\<close> that is not a number: only a string or an array can equal it.\<close>

fun loosely_equals :: "json \<Rightarrow> string \<Rightarrow> bool" where
  "loosely_equals (JStr s) t = (s = t)"
| "loosely_equals (JArr xs) t = (js_to_string (JArr xs) = t)"
| "loosely_equals v t = False"

text \<open>\<^verbatim>\<open>v != null\<close> is \<open>\<not> is_nullish v\<close>.\<close>

definition is_nullish :: "json \<Rightarrow> bool" where
  "is_nullish v = (v = JNull \<or> v = JUndefined)"

fun js_truthy :: "json \<Rightarrow> bool" where
  "js_truthy JUndefined = False"
| "js_truthy JNull = False"
| "js_truthy (JBool b) = b"
| "js_truthy (JNum n) =
     list_ex (\<lambda>c. is_digit c \<and> c \<noteq> CHR ''0'')
       (takeWhile (\<lambda>c. c \<noteq> CHR ''e'' \<and> c \<noteq> CHR ''E'') n)"
| "js_truthy (JStr s) = (s \<noteq> [])"
| "js_truthy (JArr xs) = True"
| "js_truthy (JObj ms) = True"

text \<open>A member read on a receiver that an earlier read has shown not to be null.\<close>

definition member :: "json \<Rightarrow> string \<Rightarrow> json" where
  "member v k = (case js_get v k of Inr x \<Rightarrow> x | Inl e \<Rightarrow> JUndefined)"

text \<open>\<^verbatim>\<open>'k' in v\<close>, for a name that is no index: a TypeError unless \<open>v\<close> is an object.\<close>

fun has_member :: "json \<Rightarrow> string \<Rightarrow> js_error + bool" where
  "has_member (JObj ms) k = Inr (k \<in> set (map fst ms))"
| "has_member (JArr xs) k = Inr False"
| "has_member v k = Inl TypeError"

text \<open>\<^verbatim>\<open>v[0]\<close>\<close>

fun first_of :: "json \<Rightarrow> js_error + json" where
  "first_of JUndefined = Inl TypeError"
| "first_of JNull = Inl TypeError"
| "first_of (JArr []) = Inr JUndefined"
| "first_of (JArr (x # xs)) = Inr x"
| "first_of (JStr []) = Inr JUndefined"
| "first_of (JStr (c # cs)) = Inr (JStr [c])"
| "first_of (JObj ms) = Inr (member (JObj ms) ''0'')"
| "first_of v = Inr JUndefined"

text \<open>\<^verbatim>\<open>s.replace(pat, rep)\<close> with a string pattern: the first occurrence only.\<close>

fun replace_first :: "string \<Rightarrow> string \<Rightarrow> string \<Rightarrow> string" where
  "replace_first pat rep [] = (if pat = [] then rep else [])"
| "replace_first pat rep (c # cs) =
     (if take (length pat) (c # cs) = pat then rep @ drop (length pat) (c # cs)
      else c # replace_first pat rep cs)"

text \<open>
  The rewriting of the layer's address on a page served over https:
  \<^verbatim>\<open>newlayer.url.startsWith('http:')\<close> needs a string.
\<close>

definition secure_url :: "library \<Rightarrow> json \<Rightarrow> js_error + json" where
  "secure_url l newlayer =
     (if location_protocol l = ''https:''
      then (case js_get newlayer ''url'' of
              Inl e \<Rightarrow> Inl e
            | Inr (JStr u) \<Rightarrow>
                if take 5 u = ''http:''
                then (case newlayer of
                        JObj ms \<Rightarrow>
                          Inr (JObj (obj_set ''url'' (JStr (replace_first ''http://'' ''https://'' u)) ms))
                      | _ \<Rightarrow> Inr newlayer)
                else Inr newlayer
            | Inr v \<Rightarrow> Inl TypeError)
      else Inr newlayer)"

text \<open>The record of a feature layer that is written to \<^verbatim>\<open>_js_layer_list\<close> when it has loaded.\<close>

definition feature_layer_dict :: "layer \<Rightarrow> json" where
  "feature_layer_dict l =
     JObj ([(''id'', layer_id l),
            (''normalization'', normalization l),
            (''refreshInterval'', refreshInterval l),
            (''url'', layer_url l)]
           @ (case layer_renderer l of
                None \<Rightarrow> []
              | Some r \<Rightarrow> [(''renderer'', toJson r), (''rendererType'', declaredClass r)]))"

text \<open>The same for a feature collection, where the renderer object itself is stored.\<close>

definition collection_layer_dict :: "layer \<Rightarrow> json" where
  "collection_layer_dict l =
     JObj ([(''id'', layer_id l),
            (''normalization'', normalization l),
            (''refreshInterval'', refreshInterval l),
            (''url'', layer_url l)]
           @ (case layer_renderer l of
                None \<Rightarrow> []
              | Some r \<Rightarrow> [(''renderer'', members r), (''rendererType'', declaredClass r)]))"

definition imagery_layer_dict :: "layer \<Rightarrow> json" where
  "imagery_layer_dict l =
     JObj ([(''id'', layer_id l),
            (''bandIds'', bandIds l),
            (''mosaicRule'', mosaicRule l),
            (''url'', layer_url l),
            (''renderingRule'', renderingRule l)]
           @ (case layer_renderer l of
                None \<Rightarrow> []
              | Some r \<Rightarrow> [(''renderer'', members r), (''rendererType'', declaredClass r)]))"

text \<open>
  \<^verbatim>\<open>l[l.length - 1]['renderer'] = ...; l[l.length - 1]['rendererType'] = ...\<close> for a
  parsed value \<open>l\<close>: a TypeError when the slot holds nothing; an assignment to a member
  of a string, number or boolean is dropped, and one to a named member of an array does
  not show in its JSON text.
\<close>

definition set_members :: "(string \<times> json) list \<Rightarrow> json \<Rightarrow> js_error + json" where
  "set_members kvs slot =
     (case slot of
        JUndefined \<Rightarrow> Inl TypeError
      | JNull \<Rightarrow> Inl TypeError
      | JObj ms \<Rightarrow> Inr (JObj (fold (\<lambda>kv. obj_set (fst kv) (snd kv)) kvs ms))
      | v \<Rightarrow> Inr v)"

definition set_last :: "library \<Rightarrow> (string \<times> json) list \<Rightarrow> json \<Rightarrow> js_error + json" where
  "set_last l kvs v =
     (case v of
        JArr xs \<Rightarrow>
          (if xs = [] then Inl TypeError
           else (case set_members kvs (last xs) of
                   Inl e \<Rightarrow> Inl e
                 | Inr x \<Rightarrow> Inr (JArr (butlast xs @ [x]))))
      | JObj ms \<Rightarrow>
          (let key = (case map_of ms ''length'' of
                        None \<Rightarrow> ''NaN''
                      | Some n \<Rightarrow> minus_one_key l n)
           in (case map_of ms key of
                 None \<Rightarrow> Inl TypeError
               | Some slot \<Rightarrow>
                   (case set_members kvs slot of
                      Inl e \<Rightarrow> Inl e
                    | Inr x \<Rightarrow> Inr (JObj (obj_set key x ms)))))
      | JStr t \<Rightarrow> (if t = [] then Inl TypeError else Inr (JStr t))
      | _ \<Rightarrow> Inl TypeError)"

text \<open>The handler of a feature layer's renderer-change event.\<close>

definition on_renderer_change :: "json option \<Rightarrow> layer \<Rightarrow> view \<Rightarrow> view outcome" where
  "on_renderer_change lyr_options l s =
     (case lyr_options of
        None \<Rightarrow> Done s
      | Some opts \<Rightarrow>
          (case has_member opts ''renderer'' of
             Inl e \<Rightarrow> Threw e s
           | Inr False \<Rightarrow> Done s
           | Inr True \<Rightarrow>
               if loosely_equals (member opts ''renderer'') ''ClassedColorRenderer''
                  \<or> loosely_equals (member opts ''renderer'') ''ClassedSizeRenderer''
               then (if attrs s ''_js_layer_list'' = [] then Done s
                     else (case JSON_parse (attrs s ''_js_layer_list'') of
                             Inl e \<Rightarrow> Threw e s
                           | Inr cur \<Rightarrow>
                               (case layer_renderer l of
                                  None \<Rightarrow> Threw TypeError s
                                | Some r \<Rightarrow>
                                    (case set_last (lib s)
                                            [(''renderer'', toJson r),
                                             (''rendererType'', declaredClass r)] cur of
                                       Inl e \<Rightarrow> Threw e s
                                     | Inr cur2 \<Rightarrow>
                                         Done (touch (model_set ''_js_layer_list''
                                                        (JSON_stringify cur2) s))))))
               else Done s))"

text \<open>The handlers attached to layer events, run for layer \<open>n\<close> as it is at the event.\<close>

fun run_closure :: "nat \<Rightarrow> layer \<Rightarrow> closure \<Rightarrow> view \<Rightarrow> view outcome" where
  "run_closure n l KmlLoad s = Threw ReferenceError s"
| "run_closure n l FeatureLoadSync s = append_to_list ''_js_layer_list'' (feature_layer_dict l) s"
| "run_closure n l (FeatureRendererChange lyr_options) s = on_renderer_change lyr_options l s"
| "run_closure n l (FeatureLoadTemplate field_name curbasemap) s =
     (let s1 = do_call (LayerSetInfoTemplate n) s;
          s2 = (if bRend s1
                then do_call (SmartMapping n ''ClassedColorRenderer'' field_name curbasemap) s1
                else s1)
      in Done (if bSRend s2
               then do_call (SmartMapping n ''ClassedSizeRenderer'' field_name curbasemap) s2
               else s2))"
| "run_closure n l ImageryLoadSync s = append_to_list ''_js_layer_list'' (imagery_layer_dict l) s"

text \<open>
  \<^verbatim>\<open>layer_changed\<close>. The basemap handed to smart mapping is \<^verbatim>\<open>topo\<close> when the
  map's basemap is one of the gallery's.
\<close>

definition curbasemap_of :: "view \<Rightarrow> string" where
  "curbasemap_of s =
     (if getBasemap (lib s) \<in> set (gallerybasemaps s) then ''topo'' else getBasemap (lib s))"

definition add_plain_layer :: "layer_kind \<Rightarrow> json \<Rightarrow> view \<Rightarrow> view" where
  "add_plain_layer kind url s =
     (do_call (AddLayer (next_layer s)) (do_call (NewLayer (next_layer s) kind url JUndefined) s))
       \<lparr>next_layer := Suc (next_layer s)\<rparr>"

definition heatmap_options :: "json \<Rightarrow> json" where
  "heatmap_options lyr_options =
     (if is_nullish (member lyr_options ''field_name'') then JObj []
      else JObj [(''field'', member lyr_options ''field_name'')])"

text \<open>The options of a feature layer, applied to layer \<open>n\<close> before it is added.\<close>

definition feature_options :: "nat \<Rightarrow> string \<Rightarrow> json \<Rightarrow> view \<Rightarrow> view outcome" where
  "feature_options n curbasemap lyr_options s =
     (case js_get lyr_options ''opacity'' of
        Inl e \<Rightarrow> Threw e s
      | Inr opacity \<Rightarrow>
          (let s1 = (if is_nullish opacity then s else do_call (LayerSetOpacity n opacity) s);
               de = member lyr_options ''definition_expression'';
               s2 = (if is_nullish de then s1 else do_call (LayerSetDefinitionExpression n de) s1);
               r = member lyr_options ''renderer'';
               s3 = (if loosely_equals r ''HeatmapRenderer''
                     then do_call (LayerSetHeatmapRenderer n JUndefined) s2 else s2)
           in Done
                (if loosely_equals r ''HeatmapRenderer''
                 then do_call (LayerSetHeatmapRenderer n (heatmap_options lyr_options)) s3
                 else if loosely_equals r ''ClassedSizeRenderer''
                 then do_call (SetTimeout n ''ClassedSizeRenderer'' lyr_options curbasemap) s3
                 else if loosely_equals r ''ClassedColorRenderer''
                 then do_call (SetTimeout n ''ClassedColorRenderer'' lyr_options curbasemap) s3
                 else do_call (LayerSetRendererFromJson n r) s3)))"

text \<open>
  The rest of the feature layer branch: the layer's own settings, adding it to the map,
  and the three handlers attached to its events.
\<close>

definition feature_tail :: "nat \<Rightarrow> string \<Rightarrow> json \<Rightarrow> json option \<Rightarrow> view \<Rightarrow> view outcome" where
  "feature_tail n curbasemap newlayer lyr_options s =
     (let opacity = member newlayer ''opacity'';
          s1 = (if is_nullish opacity then s else do_call (LayerSetOpacity n opacity) s);
          de = member newlayer ''definition_expression'';
          s2 = (if is_nullish de then s1 else do_call (LayerSetDefinitionExpression n de) s1);
          r = member newlayer ''renderer'';
          s3 = (if loosely_equals r ''HeatmapRenderer''
                then do_call (LayerSetHeatmapRenderer n JUndefined) s2 else s2)
      in Done ((do_call (AddLayer n) s3)
                 \<lparr>bRend := loosely_equals r ''ClassedColorRenderer'',
                  bSRend := loosely_equals r ''ClassedSizeRenderer'',
                  layer_on := layer_on s3 @
                    [(n, ''load'', FeatureLoadSync),
                     (n, ''renderer-change'', FeatureRendererChange lyr_options),
                     (n, ''load'', FeatureLoadTemplate (member newlayer ''field_name'') curbasemap)]\<rparr>))"

definition add_feature_layer :: "string \<Rightarrow> json \<Rightarrow> view \<Rightarrow> view outcome" where
  "add_feature_layer curbasemap newlayer s =
     (let n = next_layer s;
          s0 = (do_call (NewLayer n FeatureLayer (member newlayer ''url'')
                           (JObj [(''outFields'', JArr [JStr ''*''])])) s)
                 \<lparr>next_layer := Suc n\<rparr>
      in if is_nullish (member newlayer ''options'')
         then feature_tail n curbasemap newlayer None s0
         else (case JSON_parse (js_to_string (member newlayer ''options'')) of
                 Inl e \<Rightarrow> Threw e s0
               | Inr lyr_options \<Rightarrow>
                   andthen (feature_options n curbasemap lyr_options s0)
                     (feature_tail n curbasemap newlayer (Some lyr_options))))"

text \<open>The imagery layer branch. The swipe widget is given \<^verbatim>\<open>map\<close>, a name nothing defines.\<close>

definition image_options :: "json \<Rightarrow> json" where
  "image_options imgsvc_options =
     (let isp = member imgsvc_options ''imageServiceParameters''
      in if js_truthy isp
         then JObj [(''imageServiceParameters'',
                     JObj (filter (\<lambda>kv. js_truthy (snd kv))
                             [(''renderingRule'', member isp ''renderingRule''),
                              (''mosaicRule'', member isp ''mosaicRule''),
                              (''bandIds'', member isp ''bandIds'')]))]
         else JObj [])"

definition imagery_tail :: "nat \<Rightarrow> json \<Rightarrow> json \<Rightarrow> json option \<Rightarrow> bool \<Rightarrow> view \<Rightarrow> view outcome" where
  "imagery_tail n url options opacity swipelayer s =
     (let s1 = (do_call (NewLayer n ArcGISImageServiceLayer url options) s)
                 \<lparr>next_layer := Suc n\<rparr>;
          s2 = (case opacity of
                  None \<Rightarrow> s1
                | Some v \<Rightarrow> if is_minus_one (lib s) v then s1 else do_call (LayerSetOpacity n v) s1);
          s3 = do_call (AddLayer n) s2
      in if swipelayer then Threw ReferenceError s3
         else Done (s3\<lparr>layer_on := layer_on s3 @ [(n, ''load'', ImageryLoadSync)]\<rparr>))"

definition add_imagery_layer :: "json \<Rightarrow> view \<Rightarrow> view outcome" where
  "add_imagery_layer newlayer s =
     (if is_nullish (member newlayer ''options'')
      then imagery_tail (next_layer s) (member newlayer ''url'') (JObj []) None False s
      else (case JSON_parse (js_to_string (member newlayer ''options'')) of
              Inl e \<Rightarrow> Threw e s
            | Inr imgsvc_options \<Rightarrow>
                (case js_get imgsvc_options ''opacity'' of
                   Inl e \<Rightarrow> Threw e s
                 | Inr opacity \<Rightarrow>
                     imagery_tail (next_layer s) (member newlayer ''url'')
                       (image_options imgsvc_options)
                       (if js_truthy opacity then Some opacity else None)
                       (js_truthy (member imgsvc_options ''swipelayer'')) s)))"

text \<open>
  The last branch, a feature collection: the layer's record is written to
  \<^verbatim>\<open>_js_layer_list\<close> at once.
\<close>

definition collection_options :: "nat \<Rightarrow> string \<Rightarrow> json \<Rightarrow> view \<Rightarrow> view outcome" where
  "collection_options n curbasemap lyr_options s =
     (case js_get lyr_options ''renderer'' of
        Inl e \<Rightarrow> Threw e s
      | Inr r \<Rightarrow>
          (let s1 = (if loosely_equals r ''HeatmapRenderer''
                     then do_call (LayerSetHeatmapRenderer n (heatmap_options lyr_options)) s
                     else s);
               s2 = (if loosely_equals r ''ClassedSizeRenderer''
                     then do_call (SetTimeout n ''ClassedSizeRenderer''
                                     (member lyr_options ''field_name'') curbasemap) s1
                     else s1)
           in Done (if loosely_equals r ''ClassedColorRenderer''
                    then do_call (SetTimeout n ''ClassedColorRenderer''
                                    (member lyr_options ''field_name'') curbasemap) s2
                    else s2)))"

definition collection_tail :: "string \<Rightarrow> json option \<Rightarrow> json \<Rightarrow> view \<Rightarrow> view outcome" where
  "collection_tail curbasemap newlyr_options newlayer s =
     (let n = next_layer s;
          s1 = do_call (LayerSetInfoTemplate n)
                 ((do_call (NewFeatureCollectionLayer n newlayer newlyr_options) s)
                    \<lparr>next_layer := Suc n\<rparr>)
      in (case js_get newlayer ''options'' of
            Inl e \<Rightarrow> Threw e s1
          | Inr options \<Rightarrow>
              andthen
                (if is_nullish options then Done s1
                 else (case JSON_parse (js_to_string options) of
                         Inl e \<Rightarrow> Threw e s1
                       | Inr lyr_options \<Rightarrow> collection_options n curbasemap lyr_options s1))
                (\<lambda>s2. append_to_list ''_js_layer_list''
                         (collection_layer_dict (collection_layer (lib s) newlayer))
                         (do_call (AddLayer n) s2))))"

definition add_collection_layer :: "string \<Rightarrow> json \<Rightarrow> view \<Rightarrow> view outcome" where
  "add_collection_layer curbasemap newlayer s =
     (case (if is_nullish (member newlayer ''options'') then Inr None
            else (case JSON_parse (js_to_string (member newlayer ''options'')) of
                    Inl e \<Rightarrow> Inl e
                  | Inr v \<Rightarrow> Inr (Some v))) of
        Inl e \<Rightarrow> Threw e s
      | Inr newlyr_options \<Rightarrow>
          (case has_member newlayer ''layers'' of
             Inl e \<Rightarrow> Threw e s
           | Inr False \<Rightarrow> collection_tail curbasemap newlyr_options newlayer s
           | Inr True \<Rightarrow>
               (case first_of (member newlayer ''layers'') of
                  Inl e \<Rightarrow> Threw e s
                | Inr l0 \<Rightarrow> collection_tail curbasemap newlyr_options l0 s)))"

definition layer_changed :: "view \<Rightarrow> view outcome" where
  "layer_changed s =
     (if \<not> has_map s then Threw TypeError s
      else if has_brace (attrs s ''_addlayer'')
      then (case JSON_parse (attrs s ''_addlayer'') of
              Inl e \<Rightarrow> Threw e s
            | Inr parsed \<Rightarrow>
                (case secure_url (lib s) parsed of
                   Inl e \<Rightarrow> Threw e s
                 | Inr newlayer \<Rightarrow>
                     (case js_get newlayer ''type'' of
                        Inl e \<Rightarrow> Threw e s
                      | Inr t \<Rightarrow>
                          if loosely_equals t ''KMLLayer''
                          then Done ((add_plain_layer KMLLayer (member newlayer ''url'') s)
                                       \<lparr>layer_on := layer_on s @ [(next_layer s, ''load'', KmlLoad)]\<rparr>)
                          else if loosely_equals t ''ArcGISTiledMapServiceLayer''
                          then Done (add_plain_layer ArcGISTiledMapServiceLayer
                                       (member newlayer ''url'') s)
                          else if loosely_equals t ''ArcGISDynamicMapServiceLayer''
                          then Done (add_plain_layer ArcGISDynamicMapServiceLayer
                                       (member newlayer ''url'') s)
                          else if loosely_equals t ''VectorTileLayer''
                          then Done (add_plain_layer VectorTileLayer (member newlayer ''url'') s)
                          else if loosely_equals t ''FeatureLayer''
                                  \<or> loosely_equals t ''Feature Layer''
                          then add_feature_layer (curbasemap_of s) newlayer s
                          else if loosely_equals t ''ImageryLayer''
                          then add_imagery_layer newlayer s
                          else add_collection_layer (curbasemap_of s) newlayer s)))
      else Done s)"

subsection \<open>When the map arrives\<close>

text \<open>The five handlers both paths run once the map is there, up to the first throw.\<close>

definition sync_all :: "view \<Rightarrow> view outcome" where
  "sync_all s =
     andthen (andthen (andthen (andthen (mode_changed s) basemap_changed) layer_changed)
                start_time_changed) end_time_changed"

text \<open>\<^verbatim>\<open>on_load\<close>, the handler of the load event of a map the view constructed.\<close>

definition on_load :: "view \<Rightarrow> view outcome" where
  "on_load s =
     sync_all
       ((do_call NewDraw
           (do_call DisableMapNavigation
              (do_call DisableKeyboardNavigation (do_call KeyboardEnable s))))
        \<lparr>has_toolbar := True,
         toolbar_on := [''draw-end''],
         map_on := map_on s @ [''mouse-drag-start'', ''mouse-out'', ''extent-change'', ''click'']\<rparr>)"

text \<open>
  The continuation of \<^verbatim>\<open>arcgisUtils.createMap\<close>: the map of the response becomes the
  view's map. No handler is attached to its extent-change event.
\<close>

definition createMap_resolved :: "view \<Rightarrow> view outcome" where
  "createMap_resolved s =
     sync_all
       ((do_call NewDraw (do_call DisableKeyboardNavigation (do_call KeyboardEnable s)))
        \<lparr>has_map := True,
         has_toolbar := True,
         toolbar_on := [''draw-end''],
         map_on := [''click'']\<rparr>)"

section \<open>What reaches the view\<close>

text \<open>
  The view is driven from outside: the notebook renders it, the kernel changes model
  attributes, the library answers requests and raises events of the map, the toolbar
  and the layers, and the user clicks on the view's element. A handler runs only when
  it has been attached.
\<close>

datatype map_event =
    Load
  | Click json
  | ExtentChange "(string \<times> json) list" json
  | MouseDragStart
  | MouseOut
  | BasemapChange "basemap_layer list"

fun map_event_name :: "map_event \<Rightarrow> string" where
  "map_event_name Load = ''load''"
| "map_event_name (Click p) = ''click''"
| "map_event_name (ExtentChange e z) = ''extent-change''"
| "map_event_name MouseDragStart = ''mouse-drag-start''"
| "map_event_name MouseOut = ''mouse-out''"
| "map_event_name (BasemapChange ls) = ''basemap-change''"

fun map_handler :: "map_event \<Rightarrow> view \<Rightarrow> view outcome" where
  "map_handler Load s = on_load s"
| "map_handler (Click p) s = onMouseClick p s"
| "map_handler (ExtentChange e z) s = onExtentChange e z s"
| "map_handler MouseDragStart s = Done (do_call EnableMapNavigation s)"
| "map_handler MouseOut s = Done (do_call DisableMapNavigation s)"
| "map_handler (BasemapChange ls) s = on_basemap_change ls s"

text \<open>The handler \<^verbatim>\<open>render\<close> attaches to the change of each attribute.\<close>

definition model_handler :: "string \<Rightarrow> view \<Rightarrow> view outcome" where
  "model_handler k =
     (if k = ''zoom'' then zoom_changed
      else if k = ''mode'' then mode_changed
      else if k = ''_extent'' then extent_changed
      else if k = ''center'' then center_changed
      else if k = ''_basemap'' then basemap_changed
      else if k = ''_gallerybasemaps'' then gallerybasemaps_changed
      else if k = ''_addlayer'' then layer_changed
      else if k = ''start_time'' then start_time_changed
      else if k = ''end_time'' then end_time_changed
      else if k = ''_layerId_to_remove'' then remove_layer
      else Done)"

text \<open>The change events of attribute \<open>k\<close>: the attached handlers, once per registration.\<close>

definition changed :: "string \<Rightarrow> view \<Rightarrow> view outcome" where
  "changed k s = fire (map model_handler (filter (\<lambda>n. n = k) (model_on s))) s"

datatype change =
    StrAttr string string
  | CenterAttr "json list"
  | ZoomAttr json
  | GalleryAttr "string list"
  | GalleryDefsAttr "json list"

datatype stimulus =
    Render
  | TokenResolved json json json
  | TokenRejected json json
  | CreateMapResolved
  | CreateMapRejected
  | MapEvent map_event
  | ToolbarDrawEnd json
  | LayerEvent nat string layer
  | ModelChanged change
  | DomClick

text \<open>A change made by the kernel: nothing happens when the value is the one held already.\<close>

fun kernel_change :: "change \<Rightarrow> view \<Rightarrow> view outcome" where
  "kernel_change (StrAttr k v) s =
     (if attrs s k = v then Done s
      else changed k (s\<lparr>attrs := (attrs s)(k := v), kernel := (kernel s)(k := v)\<rparr>))"
| "kernel_change (CenterAttr c) s =
     (if center s = c then Done s else changed ''center'' (s\<lparr>center := c\<rparr>))"
| "kernel_change (ZoomAttr z) s =
     (if zoom s = z then Done s else changed ''zoom'' (s\<lparr>zoom := z\<rparr>))"
| "kernel_change (GalleryAttr bs) s =
     (if gallerybasemaps s = bs then Done s
      else changed ''_gallerybasemaps'' (s\<lparr>gallerybasemaps := bs\<rparr>))"
| "kernel_change (GalleryDefsAttr ds) s =
     (if gbasemaps_def s = ds then Done s else Done (s\<lparr>gbasemaps_def := ds\<rparr>))"

fun react :: "stimulus \<Rightarrow> view \<Rightarrow> view outcome" where
  "react Render s = render s"
| "react (TokenResolved server userId response) s =
     (if (server, userId) \<in> set (token_pending s)
      then token_resolved server userId response
             (s\<lparr>token_pending := remove1 (server, userId) (token_pending s)\<rparr>)
      else Done s)"
| "react (TokenRejected server userId) s =
     Done (s\<lparr>token_pending := remove1 (server, userId) (token_pending s)\<rparr>)"
| "react CreateMapResolved s =
     (if createMap_pending s > 0
      then createMap_resolved (s\<lparr>createMap_pending := createMap_pending s - 1\<rparr>)
      else Done s)"
| "react CreateMapRejected s = Done (s\<lparr>createMap_pending := createMap_pending s - 1\<rparr>)"
| "react (MapEvent ev) s =
     fire (map (\<lambda>n. map_handler ev) (filter (\<lambda>n. n = map_event_name ev) (map_on s))) s"
| "react (ToolbarDrawEnd geometry) s =
     fire (map (\<lambda>n. onDrawEnd geometry) (filter (\<lambda>n. n = ''draw-end'') (toolbar_on s))) s"
| "react (LayerEvent n name l) s =
     fire (map (\<lambda>h. run_closure n l (snd (snd h)))
             (filter (\<lambda>h. fst h = n \<and> fst (snd h) = name) (layer_on s))) s"
| "react (ModelChanged c) s = kernel_change c s"
| "react DomClick s = handle_click s"

text \<open>A run of the view: each stimulus meets the state the one before it left.\<close>

fun run :: "stimulus list \<Rightarrow> view \<Rightarrow> view" where
  "run [] s = s"
| "run (e # es) s = run es (state_of (react e s))"

section \<open>Notions used in the statements\<close>

text \<open>The three events the view may name in a message.\<close>

definition allowed_event :: "msg \<Rightarrow> bool" where
  "allowed_event m = (event m = ''mouseclick'' \<or> event m = ''draw-end'' \<or> event m = ''click'')"



text \<open>From one state to another, only messages with the three event names were sent.\<close>

definition sends_only :: "view \<Rightarrow> view \<Rightarrow> bool" where
  "sends_only s s' = (\<exists>ms. sent s' = sent s @ ms \<and> list_all allowed_event ms)"


text \<open>The text of a list attribute: empty, or the JSON text of an array.\<close>

definition is_list_text :: "string \<Rightarrow> bool" where
  "is_list_text t = (t = [] \<or> (\<exists>xs. t = JSON_stringify (JArr xs)))"

text \<open>Both list attributes of the model hold list text.\<close>

definition lists_ok :: "view \<Rightarrow> bool" where
  "lists_ok s =
     (is_list_text (attrs s ''_js_layer_list'')
      \<and> is_list_text (attrs s ''_js_interactive_drawn_graphic''))"

text \<open>A stimulus by which the kernel does not put anything but list text into a list attribute.\<close>

fun conforming :: "stimulus \<Rightarrow> bool" where
  "conforming (ModelChanged (StrAttr k v)) =
     (if k = ''_js_layer_list'' \<or> k = ''_js_interactive_drawn_graphic'' then is_list_text v
      else True)"
| "conforming e = True"

text \<open>
  Two invariants of \<^verbatim>\<open>JSON.parse\<close> on a text that opens with a bracket: the first
  token the lexer has collected is the bracket, and the lowest frame of the parser's
  stack is that of an array, until the array is the finished value.
\<close>

definition opens_array :: "lmode \<times> token list \<Rightarrow> bool" where
  "opens_array st = (snd st \<noteq> [] \<and> last (snd st) = TLBrack)"

definition array_bottom :: "frame list \<times> phase \<Rightarrow> bool" where
  "array_bottom st =
     (case fst st of
        [] \<Rightarrow> (\<exists>xs. snd st = PDone (JArr xs))
      | f # fs \<Rightarrow> (\<exists>xs. last (f # fs) = ArrF xs))"

section \<open>A concrete view\<close>

text \<open>
  A library that reads a graphic's symbol and geometry off the JSON it is built from,
  and a view as it is before \<^verbatim>\<open>render\<close>, on a model whose \<^verbatim>\<open>mode\<close> is
  \<^verbatim>\<open>navigate\<close> and whose other string attributes are empty. The examples below run the handlers on them.
\<close>

definition lib0 :: library where
  "lib0 = \<lparr>new_SimpleFillSymbol = JObj [(''type'', JStr ''simplefillsymbol'')],
           Graphic_symbol = (\<lambda>j. member j ''symbol''),
           Graphic_geometry = (\<lambda>j. member j ''geometry''),
           nbextensionPath = ''/nbextensions/arcgis'',
           location_protocol = ''http:'',
           getBasemap = ''topo'',
           collection_layer =
             (\<lambda>j. \<lparr>layer_id = JStr ''graphicsLayer1'', normalization = JUndefined,
                    refreshInterval = JNum ''0'', layer_url = JNull, layer_renderer = None,
                    bandIds = JUndefined, mosaicRule = JUndefined, renderingRule = JUndefined\<rparr>),
           minus_one_key = (\<lambda>j. ''NaN''),
           is_minus_one = (\<lambda>j. j = JNum ''-1'')\<rparr>"

definition view0 :: view where
  "view0 = \<lparr>attrs = (\<lambda>k. if k = ''mode'' then ''navigate'' else []), center = [JNum ''34'', JNum ''-118''], zoom = JNum ''4'',
            gallerybasemaps = [], gbasemaps_def = [], kernel = (\<lambda>k. []), sent = [], calls = [],
            has_map = False, has_toolbar = False, model_on = [], map_on = [], toolbar_on = [],
            token_pending = [], createMap_pending = 0, bRend = False, bSRend = False,
            next_layer = 0, layer_on = [], lib = lib0\<rparr>"

text \<open>The same view once its map and draw toolbar exist.\<close>

definition view1 :: view where
  "view1 = view0\<lparr>has_map := True, has_toolbar := True\<rparr>"

text \<open>A view with a map whose model holds a time range.\<close>

definition view_times :: view where
  "view_times =
     view1\<lparr>attrs := (attrs view1)(''start_time'' := ''2015-01-01'', ''end_time'' := ''2016-01-01'')\<rparr>"


text \<open>The view after it has been rendered and its map has loaded, and then in a drawing mode.\<close>

definition view_ready :: view where
  "view_ready = run [Render, MapEvent Load] view0"

definition view_drawing :: view where
  "view_drawing = run [ModelChanged (StrAttr ''mode'' ''polygon'')] view_ready"

text \<open>A point, as the click and draw events of the examples carry it.\<close>

definition point0 :: json where
  "point0 = JObj [(''x'', JNum ''-118.2''), (''y'', JNum ''34.1'')]"







text \<open>
  The view after the kernel has chosen the basemap \<^verbatim>\<open>topo\<close>, and three basemap layers:
  one whose metadata is JSON text with a title, one whose metadata has document
  information without a title, and one whose metadata is an object, which
  \<^verbatim>\<open>JSON.parse\<close> is handed as the text \<^verbatim>\<open>[object Object]\<close>.
\<close>

definition view_topo :: view where
  "view_topo = run [ModelChanged (StrAttr ''_basemap'' ''topo'')] view_ready"

definition layer_titled :: basemap_layer where
  \<open>layer_titled =
     \<lparr>basemap_url = JStr ''https://services.example.com/World_Topo_Map/MapServer'',
      resourceInfo = ''{"documentInfo":{"Title":"World Topographic Map"}}''\<rparr>\<close>

definition layer_untitled :: basemap_layer where
  \<open>layer_untitled =
     \<lparr>basemap_url = JStr ''https://services.example.com/Reference/MapServer'',
      resourceInfo = ''{"documentInfo":{}}''\<rparr>\<close>

definition layer_opaque :: basemap_layer where
  \<open>layer_opaque =
     \<lparr>basemap_url = JStr ''https://services.example.com/Imagery/MapServer'',
      resourceInfo = ''[object Object]''\<rparr>\<close>

text \<open>
  A feature layer as the library presents it once loaded, with a simple renderer, and the
  view after the kernel has asked for that layer to be added.
\<close>

definition renderer0 :: renderer where
  "renderer0 =
     \<lparr>toJson = JObj [(''type'', JStr ''simple''), (''symbol'', JObj [(''type'', JStr ''esriSMS'')])],
      declaredClass = JStr ''esri.renderer.SimpleRenderer'',
      members = JObj [(''symbol'', JObj [(''type'', JStr ''simplemarkersymbol'')])]\<rparr>"

definition layer0 :: layer where
  "layer0 =
     \<lparr>layer_id = JStr ''graphicsLayer2'', normalization = JUndefined, refreshInterval = JNum ''0'',
      layer_url = JStr ''http://services.example.com/arcgis/rest/services/Cities/FeatureServer/0'',
      layer_renderer = Some renderer0,
      bandIds = JUndefined, mosaicRule = JUndefined, renderingRule = JUndefined\<rparr>"



text \<open>
  The view after one graphic has been drawn, the same view as the model holds it when the
  kernel asks for the graphics to be cleared, and layer options that name a classed renderer.
\<close>

definition view_drawn :: view where
  "view_drawn = run [ToolbarDrawEnd point0] view_drawing"

definition view_clearing :: view where
  "view_clearing = view_drawn\<lparr>attrs := (attrs view_drawn)(''mode'' := ''###clear_graphics'')\<rparr>"

definition options_classed :: json where
  "options_classed = JObj [(''renderer'', JStr ''ClassedColorRenderer'')]"

section \<open>Properties\<close>

lemma register_basemaps_fields:
  "attrs (register_basemaps bms ds s) = attrs s"
  "center (register_basemaps bms ds s) = center s"
  "zoom (register_basemaps bms ds s) = zoom s"
  "sent (register_basemaps bms ds s) = sent s"
  "kernel (register_basemaps bms ds s) = kernel s"
  "has_map (register_basemaps bms ds s) = has_map s"
  "lib (register_basemaps bms ds s) = lib s"
  "token_pending (register_basemaps bms ds s) = token_pending s"
  "createMap_pending (register_basemaps bms ds s) = createMap_pending s"
  "model_on (register_basemaps bms ds s) = model_on s"
  "has_toolbar (register_basemaps bms ds s) = has_toolbar s"
  "gallerybasemaps (register_basemaps bms ds s) = gallerybasemaps s"
  "gbasemaps_def (register_basemaps bms ds s) = gbasemaps_def s"
  "layer_on (register_basemaps bms ds s) = layer_on s"
  by (induction bms ds s rule: register_basemaps.induct) (simp_all add: do_call_def)

text \<open>
  Claim C9. \<^verbatim>\<open>center_changed\<close> reverses the array the model stores as \<^verbatim>\<open>center\<close>
  in place: on a view that has its map, one call leaves the model's \<^verbatim>\<open>center\<close>
  reversed and recentres the map there, and a second call recentres the map at the
  original order and leaves the model as it was. \<^verbatim>\<open>load_map\<close> reverses the stored array
  in the same way when it builds the map from \<^verbatim>\<open>center\<close> (no web map id, no brace in
  \<^verbatim>\<open>_extent\<close>).
\<close>

theorem center_changed_reverses_in_place:
  "(has_map s \<longrightarrow>
      center_changed s =
        Done (s\<lparr>center := rev (center s), calls := calls s @ [CenterAt (rev (center s))]\<rparr>)
      \<and> andthen (center_changed s) center_changed =
        Done (s\<lparr>calls := calls s @ [CenterAt (rev (center s)), CenterAt (center s)]\<rparr>))
   \<and> (\<not> nonblank (attrs s ''id'') \<and> \<not> has_brace (attrs s ''_extent'') \<longrightarrow>
        (\<exists>s'. load_map s = Done s'
           \<and> center s' = rev (center s)
           \<and> last (calls s') = NewMapCenter (attrs s ''_basemap'') (rev (center s)) (zoom s)))"
  by (simp add: center_changed_def load_map_def do_call_def Let_def register_basemaps_fields)

theorem center_changed_reverses_in_place_witness:
  "has_map view1
   \<and> center (state_of (center_changed view1)) = [JNum ''-118'', JNum ''34'']
   \<and> calls (state_of (andthen (center_changed view1) center_changed))
       = [CenterAt [JNum ''-118'', JNum ''34''], CenterAt [JNum ''34'', JNum ''-118'']]
   \<and> \<not> nonblank (attrs view0 ''id'') \<and> \<not> has_brace (attrs view0 ''_extent'')
   \<and> center (state_of (load_map view0)) = [JNum ''-118'', JNum ''34'']"
  using center_changed_reverses_in_place [of view1]
        center_changed_reverses_in_place [of view0]
  by (auto simp add: view0_def view1_def nonblank_def has_brace_def)

text \<open>
  Claim C10. When \<^verbatim>\<open>start_time\<close> and \<^verbatim>\<open>end_time\<close> are both non-empty after
  trimming, \<^verbatim>\<open>start_time_changed\<close> and \<^verbatim>\<open>end_time_changed\<close> do the same thing: on a
  view with a map each sets the time extent from the date read from \<^verbatim>\<open>start_time\<close> to
  the date read from \<^verbatim>\<open>end_time\<close>. A handler whose own attribute is empty or blank
  changes nothing.
\<close>

theorem time_handlers_agree:
  "(nonblank (attrs s ''start_time'') \<and> nonblank (attrs s ''end_time'') \<longrightarrow>
      start_time_changed s = end_time_changed s
      \<and> (has_map s \<longrightarrow>
           end_time_changed s =
             Done (s\<lparr>calls := calls s @
                      [SetTimeExtent \<lparr>startTime = Date (attrs s ''start_time''),
                                      endTime = Date (attrs s ''end_time'')\<rparr>]\<rparr>)))
   \<and> (\<not> nonblank (attrs s ''start_time'') \<longrightarrow> start_time_changed s = Done s)
   \<and> (\<not> nonblank (attrs s ''end_time'') \<longrightarrow> end_time_changed s = Done s)"
  by (simp add: start_time_changed_def end_time_changed_def nonblank_def do_call_def)

theorem time_handlers_agree_witness:
  "nonblank (attrs view_times ''start_time'') \<and> nonblank (attrs view_times ''end_time'')
   \<and> has_map view_times
   \<and> start_time_changed view_times = end_time_changed view_times
   \<and> calls (state_of (end_time_changed view_times))
       = [SetTimeExtent \<lparr>startTime = Date ''2015-01-01'', endTime = Date ''2016-01-01''\<rparr>]
   \<and> \<not> nonblank (attrs view1 ''start_time'') \<and> start_time_changed view1 = Done view1
   \<and> \<not> nonblank (attrs view1 ''end_time'') \<and> end_time_changed view1 = Done view1"
  using time_handlers_agree [of view_times] time_handlers_agree [of view1]
  by (simp add: view_times_def view1_def view0_def nonblank_def trim_def is_js_space_def)

lemma fire_mode_changed_navigate:
  "attrs s ''mode'' = ''navigate'' \<Longrightarrow> has_toolbar s \<Longrightarrow>
   fire (map (\<lambda>k. mode_changed) ks) s
     = Done (s\<lparr>calls := calls s @ replicate (length ks) ToolbarDeactivate\<rparr>)"
proof (induction ks arbitrary: s)
  case Nil
  then show ?case by simp
next
  case (Cons k ks)
  have step: "mode_changed s = Done (s\<lparr>calls := calls s @ [ToolbarDeactivate]\<rparr>)"
    using Cons.prems by (simp add: mode_changed_def do_call_def)
  have "fire (map (\<lambda>k. mode_changed) ks) (s\<lparr>calls := calls s @ [ToolbarDeactivate]\<rparr>)
        = Done (s\<lparr>calls := (calls s @ [ToolbarDeactivate]) @ replicate (length ks) ToolbarDeactivate\<rparr>)"
    using Cons.IH [of "s\<lparr>calls := calls s @ [ToolbarDeactivate]\<rparr>"] Cons.prems by simp
  then show ?case using step by (simp add: replicate_append_same)
qed

lemma draw_end_effects:
  assumes "has_toolbar s"
  shows "draw_end g s =
     Done (s\<lparr>attrs := (attrs s)(''mode'' := ''navigate''),
             kernel := (attrs s)(''mode'' := ''navigate''),
             sent := sent s @ [\<lparr>event = ''draw-end'', message = g\<rparr>],
             calls := calls s @ replicate
               (if attrs s ''mode'' = ''navigate'' then 0
                else length (filter (\<lambda>k. k = ''mode'') (model_on s))) ToolbarDeactivate\<rparr>)"
proof (cases "attrs s ''mode'' = ''navigate''")
  case True
  then have "(attrs s)(''mode'' := ''navigate'') = attrs s" by auto
  then show ?thesis using True by (simp add: draw_end_def send_def touch_def)
next
  case False
  let ?s1 = "model_set ''mode'' ''navigate'' s"
  have "fire (map (\<lambda>k. mode_changed) (filter (\<lambda>k. k = ''mode'') (model_on s))) ?s1
        = Done (?s1\<lparr>calls := calls ?s1 @ replicate (length (filter (\<lambda>k. k = ''mode'') (model_on s))) ToolbarDeactivate\<rparr>)"
    using assms by (intro fire_mode_changed_navigate) (simp_all add: model_set_def)
  then show ?thesis using False by (simp add: draw_end_def send_def touch_def model_set_def)
qed






subsection \<open>What the primitive steps leave alone\<close>

lemma prim_fields [simp]:
  "sent (do_call c s) = sent s" "attrs (do_call c s) = attrs s" "map_on (do_call c s) = map_on s"
  "has_map (do_call c s) = has_map s" "has_toolbar (do_call c s) = has_toolbar s"
  "lib (do_call c s) = lib s" "kernel (do_call c s) = kernel s"
  "sent (model_set k v s) = sent s" "map_on (model_set k v s) = map_on s"
  "calls (model_set k v s) = calls s" "lib (model_set k v s) = lib s"
  "attrs (model_set k v s) = (attrs s)(k := v)"
  "sent (touch s) = sent s" "attrs (touch s) = attrs s" "map_on (touch s) = map_on s"
  "calls (touch s) = calls s" "kernel (touch s) = attrs s" "lib (touch s) = lib s"
  "attrs (send e m s) = attrs s" "map_on (send e m s) = map_on s" "calls (send e m s) = calls s"
  "sent (send e m s) = sent s @ [\<lparr>event = e, message = m\<rparr>]"
  "calls (do_call c s) = calls s @ [c]"
  "center (do_call c s) = center s" "zoom (do_call c s) = zoom s"
  "gallerybasemaps (do_call c s) = gallerybasemaps s" "gbasemaps_def (do_call c s) = gbasemaps_def s"
  "model_on (do_call c s) = model_on s" "toolbar_on (do_call c s) = toolbar_on s"
  "token_pending (do_call c s) = token_pending s"
  "createMap_pending (do_call c s) = createMap_pending s"
  "layer_on (do_call c s) = layer_on s" "next_layer (do_call c s) = next_layer s"
  by (simp_all add: do_call_def model_set_def touch_def send_def)

lemma register_basemaps_map_on [simp]:
  "map_on (register_basemaps bms ds s) = map_on s"
  by (induction bms ds s rule: register_basemaps.induct) (simp_all add: do_call_def)

text \<open>
  A relation between the state before and after that every handler of a list keeps,
  and that is reflexive and transitive, is kept by running them in sequence.
\<close>

lemma state_of_andthen_rel:
  assumes "R s (state_of x)"
    and "\<And>s1. R s1 (state_of (f s1))"
    and "\<And>a b c. R a b \<Longrightarrow> R b c \<Longrightarrow> R a c"
  shows "R s (state_of (andthen x f))"
  using assms by (cases x) auto

lemma state_of_fire_rel:
  assumes "\<And>h s. h \<in> set hs \<Longrightarrow> R s (state_of (h s))"
    and "\<And>s. R s s"
    and "\<And>a b c. R a b \<Longrightarrow> R b c \<Longrightarrow> R a c"
  shows "R s (state_of (fire hs s))"
  using assms(1)
proof (induction hs arbitrary: s)
  case Nil
  then show ?case using assms(2) by simp
next
  case (Cons h hs)
  have a: "R s (state_of (h s))" using Cons.prems by simp
  show ?case
  proof (cases "h s")
    case (Done s1)
    then show ?thesis using a Cons.IH [of s1] Cons.prems assms(3) by auto
  next
    case (Threw e s1)
    then show ?thesis using a by simp
  qed
qed

subsection \<open>Handlers that send nothing\<close>

lemma append_to_list_sent [simp]: "sent (state_of (append_to_list k x s)) = sent s"
  by (simp add: append_to_list_def split: sum.splits)

lemma simple_handlers_sent [simp]:
  "sent (state_of (zoom_changed s)) = sent s"
  "sent (state_of (mode_changed s)) = sent s"
  "sent (state_of (remove_layer s)) = sent s"
  "sent (state_of (center_changed s)) = sent s"
  "sent (state_of (extent_changed s)) = sent s"
  "sent (state_of (start_time_changed s)) = sent s"
  "sent (state_of (end_time_changed s)) = sent s"
  "sent (state_of (gallerybasemaps_changed s)) = sent s"
  "sent (state_of (basemap_changed s)) = sent s"
  "sent (state_of (on_basemap_change ls s)) = sent s"
  "sent (state_of (extent_change e z s)) = sent s"
  "sent (state_of (onExtentChange e z s)) = sent s"
  "sent (state_of (subscribe s)) = sent s"
  by (simp_all add: zoom_changed_def mode_changed_def remove_layer_def center_changed_def
        extent_changed_def start_time_changed_def end_time_changed_def
        gallerybasemaps_changed_def basemap_changed_def on_basemap_change_def
        extent_change_def onExtentChange_def subscribe_def register_basemaps_fields
        split: sum.splits)

lemma load_map_sent [simp]: "sent (state_of (load_map s)) = sent s"
  by (simp add: load_map_def Let_def register_basemaps_fields split: sum.splits)

lemma render_sent [simp]: "sent (state_of (render s)) = sent s"
  unfolding render_def Let_def
  by (auto split: sum.splits simp: subscribe_def
        intro!: state_of_andthen_rel [where R = "\<lambda>a b. sent b = sent a"])

lemma token_resolved_sent [simp]: "sent (state_of (token_resolved a b c s)) = sent s"
  by (simp add: token_resolved_def split: sum.splits)

lemma layer_parts_sent [simp]:
  "sent (state_of (feature_options n cb lo s)) = sent s"
  "sent (state_of (feature_tail n cb nl lo2 s)) = sent s"
  "sent (state_of (imagery_tail n url opts op sw s)) = sent s"
  "sent (state_of (collection_options n cb lo s)) = sent s"
  "sent (add_plain_layer kind u s) = sent s"
  by (simp_all add: feature_options_def feature_tail_def imagery_tail_def collection_options_def
        add_plain_layer_def Let_def split: sum.splits option.splits)

lemma add_feature_layer_sent [simp]: "sent (state_of (add_feature_layer cb nl s)) = sent s"
  unfolding add_feature_layer_def Let_def
  by (auto split: sum.splits intro!: state_of_andthen_rel [where R = "\<lambda>a b. sent b = sent a"])

lemma add_imagery_layer_sent [simp]: "sent (state_of (add_imagery_layer nl s)) = sent s"
  by (simp add: add_imagery_layer_def split: sum.splits)

lemma collection_tail_sent [simp]: "sent (state_of (collection_tail cb po nl s)) = sent s"
  unfolding collection_tail_def Let_def
  by (auto split: sum.splits intro!: state_of_andthen_rel [where R = "\<lambda>a b. sent b = sent a"])

lemma add_collection_layer_sent [simp]: "sent (state_of (add_collection_layer cb nl s)) = sent s"
  by (simp add: add_collection_layer_def split: sum.splits bool.splits)

lemma layer_changed_sent [simp]: "sent (state_of (layer_changed s)) = sent s"
  by (simp add: layer_changed_def split: sum.splits)

lemma sync_all_sent [simp]: "sent (state_of (sync_all s)) = sent s"
  unfolding sync_all_def
  by (intro state_of_andthen_rel [where R = "\<lambda>a b. sent b = sent a"]) simp_all

lemma map_arrival_sent [simp]:
  "sent (state_of (on_load s)) = sent s"
  "sent (state_of (createMap_resolved s)) = sent s"
  by (simp_all add: on_load_def createMap_resolved_def)

lemma on_renderer_change_sent [simp]: "sent (state_of (on_renderer_change lo l s)) = sent s"
  by (simp add: on_renderer_change_def split: sum.splits option.splits bool.splits)

lemma run_closure_sent [simp]: "sent (state_of (run_closure n l c s)) = sent s"
  by (cases c) (simp_all add: Let_def)

lemma model_handler_sent [simp]: "sent (state_of (model_handler k s)) = sent s"
  by (simp add: model_handler_def)

lemma changed_sent [simp]: "sent (state_of (changed k s)) = sent s"
  unfolding changed_def
  by (rule state_of_fire_rel [where R = "\<lambda>a b. sent b = sent a"]) auto

lemma kernel_change_sent [simp]: "sent (state_of (kernel_change c s)) = sent s"
  by (cases c) simp_all

subsection \<open>The messages sent\<close>

lemma sends_only_refl: "sends_only s s"
  by (simp add: sends_only_def)

lemma sends_only_trans: "sends_only a b \<Longrightarrow> sends_only b c \<Longrightarrow> sends_only a c"
  by (auto simp add: sends_only_def)

lemma sends_only_same: "sent s' = sent s \<Longrightarrow> sends_only s s'"
  by (simp add: sends_only_def)

lemma mouse_clicked_sends: "sends_only s (state_of (mouse_clicked g s))"
  by (simp add: sends_only_def mouse_clicked_def allowed_event_def)

lemma onMouseClick_sends: "sends_only s (state_of (onMouseClick p s))"
  by (simp add: sends_only_def onMouseClick_def mouse_clicked_def allowed_event_def)

lemma handle_click_sends: "sends_only s (state_of (handle_click s))"
  by (simp add: sends_only_def handle_click_def allowed_event_def)

lemma fire_mode_changed_sent:
  "sent (state_of (fire (map (\<lambda>k. mode_changed) ks) s)) = sent s"
  by (rule state_of_fire_rel [where R = "\<lambda>a b. sent b = sent a"]) auto

lemma draw_end_sends: "sends_only s (state_of (draw_end g s))"
proof -
  let ?x = "if attrs s ''mode'' = ''navigate'' then Done s
            else fire (map (\<lambda>k. mode_changed) (filter (\<lambda>k. k = ''mode'') (model_on s)))
                   (model_set ''mode'' ''navigate'' s)"
  have a: "sent (state_of ?x) = sent s"
    by (simp add: fire_mode_changed_sent)
  show ?thesis
  proof (cases ?x)
    case (Done s1)
    then have "sent s1 = sent s" using a by simp
    then show ?thesis using Done
      by (simp add: draw_end_def sends_only_def allowed_event_def)
  next
    case (Threw e s1)
    then have "sent s1 = sent s" using a by simp
    then show ?thesis using Threw
      by (simp add: draw_end_def sends_only_def)
  qed
qed

lemma onDrawEnd_sends: "sends_only s (state_of (onDrawEnd g s))"
proof -
  have b: "\<And>s1. sends_only s1 (state_of (append_to_list ''_js_interactive_drawn_graphic''
              (JObj [(''geometry'', g), (''symbol'', new_SimpleFillSymbol (lib s))]) s1))"
    by (simp add: sends_only_same)
  have c: "sends_only s (state_of (draw_end g
                (do_call ToolbarDeactivate
                   (do_call (GraphicsAdd g (new_SimpleFillSymbol (lib s))) s))))"
    using draw_end_sends [of "do_call ToolbarDeactivate
                   (do_call (GraphicsAdd g (new_SimpleFillSymbol (lib s))) s)" g]
    by (simp add: sends_only_def)
  show ?thesis
    unfolding onDrawEnd_def
    using state_of_andthen_rel [where R = sends_only, OF c b sends_only_trans]
    by (auto simp add: sends_only_same)
qed

lemma map_handler_sends: "sends_only s (state_of (map_handler ev s))"
  by (cases ev) (simp_all add: sends_only_same onMouseClick_sends)

lemma react_sends: "sends_only s (state_of (react e s))"
proof (cases e)
  case (MapEvent ev)
  show ?thesis unfolding MapEvent react.simps
    by (rule state_of_fire_rel [where R = sends_only])
       (auto simp add: map_handler_sends sends_only_refl intro: sends_only_trans)
next
  case (ToolbarDrawEnd g)
  show ?thesis unfolding ToolbarDrawEnd react.simps
    by (rule state_of_fire_rel [where R = sends_only])
       (auto simp add: onDrawEnd_sends sends_only_refl intro: sends_only_trans)
next
  case (LayerEvent n name l)
  show ?thesis unfolding LayerEvent react.simps
    by (rule state_of_fire_rel [where R = sends_only])
       (auto simp add: sends_only_same sends_only_refl intro: sends_only_trans)
next
  case DomClick
  then show ?thesis by (simp add: handle_click_sends)
qed (simp_all add: sends_only_same)

text \<open>
  Claim C2. Whatever reaches the view, the messages it sends carry one of the event names
  \<^verbatim>\<open>mouseclick\<close>, \<^verbatim>\<open>draw-end\<close> and \<^verbatim>\<open>click\<close>: \<^verbatim>\<open>mouse_clicked\<close> sends
  \<^verbatim>\<open>mouseclick\<close> with the map point, \<^verbatim>\<open>draw_end\<close>, when it runs to its end (as it
  does on a view with a toolbar), sends \<^verbatim>\<open>draw-end\<close> with the geometry, and
  \<^verbatim>\<open>_handle_click\<close> sends \<^verbatim>\<open>click\<close>.
\<close>

theorem view_sends_three_events:
  "(\<exists>ms. sent (state_of (react e s)) = sent s @ ms \<and> list_all allowed_event ms)
   \<and> mouse_clicked g s = Done (s\<lparr>sent := sent s @ [\<lparr>event = ''mouseclick'', message = g\<rparr>]\<rparr>)
   \<and> (draw_end g s = Done s' \<longrightarrow> sent s' = sent s @ [\<lparr>event = ''draw-end'', message = g\<rparr>])
   \<and> (has_toolbar s \<longrightarrow> (\<exists>s1. draw_end g s = Done s1))
   \<and> handle_click s = Done (s\<lparr>sent := sent s @ [\<lparr>event = ''click'', message = JStr ''xyz''\<rparr>]\<rparr>)"
proof -
  have a: "\<exists>ms. sent (state_of (react e s)) = sent s @ ms \<and> list_all allowed_event ms"
    using react_sends [of s e] by (simp add: sends_only_def)
  let ?x = "if attrs s ''mode'' = ''navigate'' then Done s
            else fire (map (\<lambda>k. mode_changed) (filter (\<lambda>k. k = ''mode'') (model_on s)))
                   (model_set ''mode'' ''navigate'' s)"
  have b: "sent (state_of ?x) = sent s"
    by (simp add: fire_mode_changed_sent)
  have c: "draw_end g s = Done s' \<longrightarrow> sent s' = sent s @ [\<lparr>event = ''draw-end'', message = g\<rparr>]"
    using b by (cases ?x) (auto simp add: draw_end_def)
  have d: "has_toolbar s \<longrightarrow> (\<exists>s1. draw_end g s = Done s1)"
    using draw_end_effects [of s g] by simp
  show ?thesis using a c d
    by (simp add: mouse_clicked_def handle_click_def send_def)
qed

theorem view_sends_three_events_witness:
  "sent (state_of (react (MapEvent (Click point0)) view_drawing))
     = sent view_drawing @ [\<lparr>event = ''mouseclick'', message = point0\<rparr>]
   \<and> list_all allowed_event [\<lparr>event = ''mouseclick'', message = point0\<rparr>]
   \<and> sent (state_of (react (ToolbarDrawEnd point0) view_drawing))
     = sent view_drawing @ [\<lparr>event = ''draw-end'', message = point0\<rparr>]
   \<and> sent (state_of (react DomClick view_drawing))
     = sent view_drawing @ [\<lparr>event = ''click'', message = JStr ''xyz''\<rparr>]
   \<and> has_toolbar view_drawing
   \<and> (\<exists>s1. draw_end point0 view_drawing = Done s1
          \<and> sent s1 = sent view_drawing @ [\<lparr>event = ''draw-end'', message = point0\<rparr>])"
proof -
  have a: "sent view_drawing = []" by code_simp
  have b: "sent (state_of (react (MapEvent (Click point0)) view_drawing))
             = [\<lparr>event = ''mouseclick'', message = point0\<rparr>]" by code_simp
  have c: "sent (state_of (react (ToolbarDrawEnd point0) view_drawing))
             = [\<lparr>event = ''draw-end'', message = point0\<rparr>]" by code_simp
  have d: "has_toolbar view_drawing" by code_simp
  obtain s1 where e: "draw_end point0 view_drawing = Done s1"
    using view_sends_three_events [of "MapEvent (Click point0)" view_drawing point0 view_drawing] d
    by blast
  have f: "sent s1 = sent view_drawing @ [\<lparr>event = ''draw-end'', message = point0\<rparr>]"
    using view_sends_three_events [of "MapEvent (Click point0)" view_drawing point0 s1] e
    by blast
  show ?thesis
    using a b c d e f
    by (simp add: allowed_event_def handle_click_def send_def)
qed

subsection \<open>The handlers attached to the map\<close>

lemma append_to_list_map_on [simp]: "map_on (state_of (append_to_list k x s)) = map_on s"
  by (simp add: append_to_list_def split: sum.splits)

lemma simple_handlers_map_on [simp]:
  "map_on (state_of (zoom_changed s)) = map_on s"
  "map_on (state_of (mode_changed s)) = map_on s"
  "map_on (state_of (remove_layer s)) = map_on s"
  "map_on (state_of (center_changed s)) = map_on s"
  "map_on (state_of (extent_changed s)) = map_on s"
  "map_on (state_of (start_time_changed s)) = map_on s"
  "map_on (state_of (end_time_changed s)) = map_on s"
  "map_on (state_of (gallerybasemaps_changed s)) = map_on s"
  "map_on (state_of (extent_change e z s)) = map_on s"
  "map_on (state_of (onExtentChange e z s)) = map_on s"
  by (simp_all add: zoom_changed_def mode_changed_def remove_layer_def center_changed_def
        extent_changed_def start_time_changed_def end_time_changed_def
        gallerybasemaps_changed_def extent_change_def onExtentChange_def
        split: sum.splits)

lemma layer_parts_map_on [simp]:
  "map_on (state_of (feature_options n cb lo s)) = map_on s"
  "map_on (state_of (feature_tail n cb nl lo2 s)) = map_on s"
  "map_on (state_of (imagery_tail n url opts op sw s)) = map_on s"
  "map_on (state_of (collection_options n cb lo s)) = map_on s"
  "map_on (add_plain_layer kind u s) = map_on s"
  by (simp_all add: feature_options_def feature_tail_def imagery_tail_def collection_options_def
        add_plain_layer_def Let_def split: sum.splits option.splits)

lemma add_feature_layer_map_on [simp]: "map_on (state_of (add_feature_layer cb nl s)) = map_on s"
  unfolding add_feature_layer_def Let_def
  by (auto split: sum.splits intro!: state_of_andthen_rel [where R = "\<lambda>a b. map_on b = map_on a"])

lemma add_imagery_layer_map_on [simp]: "map_on (state_of (add_imagery_layer nl s)) = map_on s"
  by (simp add: add_imagery_layer_def split: sum.splits)

lemma collection_tail_map_on [simp]: "map_on (state_of (collection_tail cb po nl s)) = map_on s"
  unfolding collection_tail_def Let_def
  by (auto split: sum.splits intro!: state_of_andthen_rel [where R = "\<lambda>a b. map_on b = map_on a"])

lemma add_collection_layer_map_on [simp]:
  "map_on (state_of (add_collection_layer cb nl s)) = map_on s"
  by (simp add: add_collection_layer_def split: sum.splits bool.splits)

lemma layer_changed_map_on [simp]: "map_on (state_of (layer_changed s)) = map_on s"
  by (simp add: layer_changed_def split: sum.splits)





subsection \<open>Extent changes\<close>









subsection \<open>Tokens and the loading of the map\<close>








subsection \<open>Basemap records\<close>

lemma fire_on_basemap_change:
  "attrs (state_of (fire (map (\<lambda>n. on_basemap_change layers) ns) s)) =
     (if ns = [] then attrs s
      else (attrs s)(''_js_basemap'' :=
             JSON_stringify (JArr (map (basemap_dict (attrs s ''_basemap'')) layers))))"
proof (induction ns arbitrary: s)
  case Nil
  then show ?case by simp
next
  case (Cons n ns)
  let ?T = "JSON_stringify (JArr (map (basemap_dict (attrs s ''_basemap'')) layers))"
  let ?s1 = "touch (model_set ''_js_basemap'' ?T
               (s\<lparr>map_on := remove1 ''basemap-change'' (map_on s)\<rparr>))"
  have h: "on_basemap_change layers s = Done ?s1"
    by (simp add: on_basemap_change_def)
  have a1: "attrs ?s1 = (attrs s)(''_js_basemap'' := ?T)" by simp
  have "attrs (state_of (fire (map (\<lambda>n. on_basemap_change layers) (n # ns)) s))
          = attrs (state_of (fire (map (\<lambda>n. on_basemap_change layers) ns) ?s1))"
    using h by simp
  also have "\<dots> = (if ns = [] then attrs ?s1
      else (attrs ?s1)(''_js_basemap'' :=
             JSON_stringify (JArr (map (basemap_dict (attrs ?s1 ''_basemap'')) layers))))"
    by (rule Cons.IH)
  also have "\<dots> = (attrs s)(''_js_basemap'' := ?T)"
    using a1 by auto
  finally show ?case by simp
qed

lemma map_handler_basemap: "map_handler (BasemapChange ls) = on_basemap_change ls"
  by (rule ext) simp

text \<open>
  Claim C6, as amended. For each basemap layer the title is read inside \<^verbatim>\<open>try\<close>: when
  the metadata parses and its document information has a title, that title is recorded;
  when parsing fails, or reading \<^verbatim>\<open>documentInfo.Title\<close> throws because the metadata
  is null or has no document information, the title is the model's \<^verbatim>\<open>_basemap\<close>. In
  every case the handler writes one record per basemap layer, with the layer's address,
  to \<^verbatim>\<open>_js_basemap\<close> and pushes it; \<^verbatim>\<open>basemap_changed\<close> sets the basemap and
  attaches that handler to the map's next basemap-change event.
\<close>

theorem basemap_records:
  "(JSON_parse (resourceInfo l) = Inr ri \<and> js_get ri ''documentInfo'' = Inr di
      \<and> js_get di ''Title'' = Inr t \<and> t \<noteq> JUndefined \<longrightarrow> basemap_title b l = t)
   \<and> (JSON_parse (resourceInfo l) = Inl e \<longrightarrow> basemap_title b l = JStr b)
   \<and> (JSON_parse (resourceInfo l) = Inr ri \<and> js_get ri ''documentInfo'' = Inl e
        \<longrightarrow> basemap_title b l = JStr b)
   \<and> (JSON_parse (resourceInfo l) = Inr ri \<and> js_get ri ''documentInfo'' = Inr di
        \<and> js_get di ''Title'' = Inl e \<longrightarrow> basemap_title b l = JStr b)
   \<and> basemap_dict b l = JObj [(''url'', basemap_url l), (''title'', basemap_title b l)]
   \<and> (\<exists>s'. on_basemap_change layers s = Done s'
         \<and> attrs s' ''_js_basemap''
             = JSON_stringify (JArr (map (basemap_dict (attrs s ''_basemap'')) layers))
         \<and> length (map (basemap_dict (attrs s ''_basemap'')) layers) = length layers
         \<and> kernel s' = attrs s')
   \<and> (has_map s \<longrightarrow>
         (\<exists>s1. basemap_changed s = Done s1 \<and> last (calls s1) = SetBasemap (attrs s ''_basemap'')
            \<and> ''basemap-change'' \<in> set (map_on s1)))
   \<and> (''basemap-change'' \<in> set (map_on s) \<longrightarrow>
         attrs (state_of (react (MapEvent (BasemapChange layers)) s)) ''_js_basemap''
           = JSON_stringify (JArr (map (basemap_dict (attrs s ''_basemap'')) layers)))"
proof -
  have w: "''basemap-change'' \<in> set (map_on s) \<longrightarrow>
         attrs (state_of (react (MapEvent (BasemapChange layers)) s)) ''_js_basemap''
           = JSON_stringify (JArr (map (basemap_dict (attrs s ''_basemap'')) layers))"
  proof
    assume "''basemap-change'' \<in> set (map_on s)"
    then have "filter (\<lambda>n. n = ''basemap-change'') (map_on s) \<noteq> []"
      by (simp add: filter_empty_conv)
    then show "attrs (state_of (react (MapEvent (BasemapChange layers)) s)) ''_js_basemap''
           = JSON_stringify (JArr (map (basemap_dict (attrs s ''_basemap'')) layers))"
      by (simp add: map_handler_basemap fire_on_basemap_change)
  qed
  have c: "has_map s \<longrightarrow>
         (\<exists>s1. basemap_changed s = Done s1 \<and> last (calls s1) = SetBasemap (attrs s ''_basemap'')
            \<and> ''basemap-change'' \<in> set (map_on s1))"
    by (simp add: basemap_changed_def)
  have t: "(JSON_parse (resourceInfo l) = Inr ri \<and> js_get ri ''documentInfo'' = Inr di
      \<and> js_get di ''Title'' = Inr t \<and> t \<noteq> JUndefined \<longrightarrow> basemap_title b l = t)
   \<and> (JSON_parse (resourceInfo l) = Inl e \<longrightarrow> basemap_title b l = JStr b)
   \<and> (JSON_parse (resourceInfo l) = Inr ri \<and> js_get ri ''documentInfo'' = Inl e
        \<longrightarrow> basemap_title b l = JStr b)
   \<and> (JSON_parse (resourceInfo l) = Inr ri \<and> js_get ri ''documentInfo'' = Inr di
        \<and> js_get di ''Title'' = Inl e \<longrightarrow> basemap_title b l = JStr b)"
    by (simp add: basemap_title_def)
  have d: "\<exists>s'. on_basemap_change layers s = Done s'
         \<and> attrs s' ''_js_basemap''
             = JSON_stringify (JArr (map (basemap_dict (attrs s ''_basemap'')) layers))
         \<and> length (map (basemap_dict (attrs s ''_basemap'')) layers) = length layers
         \<and> kernel s' = attrs s'"
    by (simp add: on_basemap_change_def)
  show ?thesis using w c t d by (simp add: basemap_dict_def del: react.simps)
qed

text \<open>
  Claim C6 as stated fails where the metadata has document information without a title:
  nothing is thrown, the title is \<^verbatim>\<open>undefined\<close> rather than the model's
  \<^verbatim>\<open>_basemap\<close>, and the record written has no title.
\<close>

theorem basemap_title_counterexample:
  \<open>JSON_parse (resourceInfo layer_untitled) = Inr (JObj [(''documentInfo'', JObj [])])
   \<and> basemap_title ''topo'' layer_untitled = JUndefined
   \<and> attrs view_topo ''_basemap'' = ''topo''
   \<and> attrs (run [MapEvent (BasemapChange [layer_untitled])] view_topo) ''_js_basemap''
       = ''[{"url":"https://services.example.com/Reference/MapServer"}]''\<close>
  by code_simp

theorem basemap_records_witness:
  \<open>JSON_parse (resourceInfo layer_titled)
       = Inr (JObj [(''documentInfo'', JObj [(''Title'', JStr ''World Topographic Map'')])])
   \<and> basemap_title ''topo'' layer_titled = JStr ''World Topographic Map''
   \<and> JSON_parse (resourceInfo layer_opaque) = Inl SyntaxError
   \<and> basemap_title ''topo'' layer_opaque = JStr ''topo''
   \<and> has_map view_ready \<and> ''basemap-change'' \<in> set (map_on view_topo)
   \<and> attrs (state_of (react (MapEvent (BasemapChange [layer_titled, layer_opaque])) view_topo))
        ''_js_basemap''
       = ''[{"url":"https://services.example.com/World_Topo_Map/MapServer","title":"World Topographic Map"},{"url":"https://services.example.com/Imagery/MapServer","title":"topo"}]''\<close>
proof -
  have p1: \<open>JSON_parse (resourceInfo layer_titled)
       = Inr (JObj [(''documentInfo'', JObj [(''Title'', JStr ''World Topographic Map'')])])\<close>
    by code_simp
  have p2: "JSON_parse (resourceInfo layer_opaque) = Inl SyntaxError" by code_simp
  have m: "has_map view_ready \<and> ''basemap-change'' \<in> set (map_on view_topo)
            \<and> attrs view_topo ''_basemap'' = ''topo''" by code_simp
  have j: \<open>JSON_stringify (JArr (map (basemap_dict ''topo'') [layer_titled, layer_opaque]))
       = ''[{"url":"https://services.example.com/World_Topo_Map/MapServer","title":"World Topographic Map"},{"url":"https://services.example.com/Imagery/MapServer","title":"topo"}]''\<close>
    by code_simp
  show ?thesis
    using p1 p2 m j
      basemap_records [of layer_titled "JObj [(''documentInfo'', JObj [(''Title'', JStr ''World Topographic Map'')])]"
         "JObj [(''Title'', JStr ''World Topographic Map'')]" "JStr ''World Topographic Map''" "''topo''"
         SyntaxError "[layer_titled, layer_opaque]" view_topo]
      basemap_records [of layer_opaque JNull JNull JNull "''topo''"
         SyntaxError "[layer_titled, layer_opaque]" view_ready]
    by (simp del: react.simps)
qed

subsection \<open>Layer records\<close>






subsection \<open>A text that opens with a bracket parses, if at all, to an array\<close>

lemma opens_array_cons: "opens_array (m, toks) \<Longrightarrow> opens_array (m', t # toks)"
  by (simp add: opens_array_def)

lemma opens_array_mode: "opens_array (m, toks) \<Longrightarrow> opens_array (m', toks)"
  by (simp add: opens_array_def)

lemma lex_normal_opens:
  "opens_array (m, toks) \<Longrightarrow> lex_normal c toks = Some st \<Longrightarrow> opens_array st"
  by (auto simp add: lex_normal_def opens_array_def split: if_splits option.splits)

lemma lex_step_opens:
  assumes "opens_array st" and "lex_step st c = Some st'"
  shows "opens_array st'"
proof (cases st)
  case (Pair m toks)
  have o: "opens_array (m, toks)" using assms(1) Pair by simp
  show ?thesis
  proof (cases m)
    case LNormal
    then show ?thesis using assms(2) Pair o lex_normal_opens by simp
  next
    case (LWord w)
    show ?thesis
    proof (cases "is_lower c")
      case True
      then have "st' = (LWord (w @ [c]), toks)" using assms(2) Pair LWord by simp
      then show ?thesis using o opens_array_mode by blast
    next
      case False
      then have "lex_normal c (TWord w # toks) = Some st'"
        using assms(2) Pair LWord by (simp split: if_splits)
      then show ?thesis using lex_normal_opens [OF opens_array_cons [OF o]] by blast
    qed
  next
    case (LNum n)
    show ?thesis
    proof (cases "is_numchar c")
      case True
      then have "st' = (LNum (n @ [c]), toks)" using assms(2) Pair LNum by simp
      then show ?thesis using o opens_array_mode by blast
    next
      case False
      then have "lex_normal c (TNum n # toks) = Some st'"
        using assms(2) Pair LNum by (simp split: if_splits)
      then show ?thesis using lex_normal_opens [OF opens_array_cons [OF o]] by blast
    qed
  next
    case (LStr x)
    then have "snd st' = toks \<or> snd st' = TStr x # toks"
      using assms(2) Pair by (auto split: if_splits)
    then show ?thesis using o by (auto simp add: opens_array_def)
  next
    case (LEsc x)
    then have "snd st' = toks"
      using assms(2) Pair by (auto split: if_splits)
    then show ?thesis using o by (auto simp add: opens_array_def)
  next
    case (LUni x h)
    then have "snd st' = toks"
      using assms(2) Pair by (auto split: if_splits option.splits)
    then show ?thesis using o by (auto simp add: opens_array_def)
  qed
qed

lemma lex_run_opens:
  "opens_array st \<Longrightarrow> lex_run st cs = Some st' \<Longrightarrow> opens_array st'"
proof (induction cs arbitrary: st)
  case Nil
  then show ?case by simp
next
  case (Cons c cs)
  then obtain st1 where s1: "lex_step st c = Some st1" "lex_run st1 cs = Some st'"
    by (auto split: option.splits)
  then show ?case using Cons.IH [of st1] Cons.prems(1) lex_step_opens by blast
qed

lemma rev_last_bracket:
  assumes "us \<noteq> []" and "last us = TLBrack"
  shows "\<exists>ts'. rev us = TLBrack # ts'"
proof -
  have "us = butlast us @ [TLBrack]" using assms by (metis append_butlast_last_id)
  then have "rev us = rev (butlast us @ [TLBrack])" by simp
  then have "rev us = TLBrack # rev (butlast us)" by (simp only: rev_append rev.simps append.simps)
  then show ?thesis by blast
qed

lemma lex_finish_opens:
  assumes "opens_array st" and "lex_finish st = Some ts"
  shows "\<exists>ts'. ts = TLBrack # ts'"
proof -
  obtain m toks where st: "st = (m, toks)" by (cases st)
  have t: "toks \<noteq> []" "last toks = TLBrack"
    using assms(1) st by (simp_all add: opens_array_def)
  show ?thesis
  proof (cases m)
    case LNormal
    then have "ts = rev toks" using assms(2) st by simp
    then show ?thesis using rev_last_bracket [OF t] by simp
  next
    case (LWord w)
    then have "ts = rev (TWord w # toks)" using assms(2) st by (simp split: if_splits)
    then show ?thesis using rev_last_bracket [of "TWord w # toks"] t by simp
  next
    case (LNum n)
    then have "ts = rev (TNum n # toks)" using assms(2) st by (simp split: if_splits)
    then show ?thesis using rev_last_bracket [of "TNum n # toks"] t by simp
  next
    case (LStr x)
    then show ?thesis using assms(2) st by simp
  next
    case (LEsc x)
    then show ?thesis using assms(2) st by simp
  next
    case (LUni x h)
    then show ?thesis using assms(2) st by simp
  qed
qed

lemma lex_bracket:
  assumes "lex (CHR ''['' # rest) = Some ts"
  shows "\<exists>ts'. ts = TLBrack # ts'"
proof -
  have first: "lex_step (LNormal, []) CHR ''['' = Some (LNormal, [TLBrack])"
    by (simp add: lex_normal_def is_json_space_def punctuation_def)
  obtain st where st: "lex_run (LNormal, [TLBrack]) rest = Some st" "lex_finish st = Some ts"
    using assms first by (auto simp add: lex_def split: option.splits)
  have "opens_array (LNormal, [TLBrack])" by (simp add: opens_array_def)
  then have "opens_array st" using st(1) lex_run_opens by blast
  then show ?thesis using st(2) lex_finish_opens by blast
qed

lemma array_bottom_push:
  "array_bottom (f # fs, ph) \<Longrightarrow> array_bottom (g # f # fs, ph')"
  by (simp add: array_bottom_def)

lemma array_bottom_phase:
  "array_bottom (f # fs, ph) \<Longrightarrow> array_bottom (f # fs, ph')"
  by (simp add: array_bottom_def)

lemma complete_bottom:
  assumes "array_bottom (f # fs, ph)"
  shows "array_bottom (complete v (f # fs))"
proof (cases f)
  case (ArrF xs)
  then show ?thesis using assms by (cases fs) (simp_all add: array_bottom_def)
next
  case (ObjF ms k)
  then show ?thesis using assms by (cases fs) (simp_all add: array_bottom_def)
qed

lemma start_value_bottom:
  assumes "array_bottom (f # fs, ph)" and "start_value t (f # fs) = Some st'"
  shows "array_bottom st'"
proof (cases t)
  case (TStr s)
  then show ?thesis using assms complete_bottom [OF assms(1)] by auto
next
  case (TNum n)
  then show ?thesis using assms complete_bottom [OF assms(1)] by auto
next
  case (TWord w)
  then show ?thesis using assms complete_bottom [OF assms(1)] by auto
next
  case TLBrack
  then show ?thesis using assms array_bottom_push [OF assms(1)] by auto
next
  case TLBrace
  then show ?thesis using assms array_bottom_push [OF assms(1)] by auto
qed (use assms in simp_all)

lemma close_frame_bottom:
  assumes "array_bottom (f # fs, ph)" and "close_frame t (f # fs) = Some st'"
  shows "array_bottom st'"
proof (cases fs)
  case Nil
  then obtain xs where f: "f = ArrF xs" using assms(1) by (auto simp add: array_bottom_def)
  then have "t = TRBrack" using assms(2) by (cases t) simp_all
  then show ?thesis using assms(2) f Nil by (auto simp add: array_bottom_def)
next
  case (Cons g gs)
  then have b: "array_bottom (g # gs, ph)" using assms(1) by (simp add: array_bottom_def)
  show ?thesis
  proof (cases f)
    case (ArrF xs)
    then have "st' = complete (JArr xs) (g # gs)"
      using assms(2) Cons by (cases t) simp_all
    then show ?thesis using complete_bottom [OF b] by simp
  next
    case (ObjF ms k)
    then have "st' = complete (JObj ms) (g # gs)"
      using assms(2) Cons by (cases t) simp_all
    then show ?thesis using complete_bottom [OF b] by simp
  qed
qed

lemma start_key_bottom:
  assumes "array_bottom (f # fs, ph)" and "start_key t (f # fs) = Some st'"
  shows "array_bottom st'"
proof (cases t)
  case (TStr k)
  show ?thesis
  proof (cases f)
    case (ArrF xs)
    then show ?thesis using assms(2) TStr by simp
  next
    case (ObjF ms k0)
    then have "st' = (ObjF ms k # fs, PColon)" using assms(2) TStr by simp
    then show ?thesis using assms(1) ObjF by (cases fs) (simp_all add: array_bottom_def)
  qed
qed (use assms in simp_all)

lemma parse_step_bottom:
  assumes "array_bottom st" and "parse_step st t = Some st'"
  shows "array_bottom st'"
proof -
  obtain fs ph where st: "st = (fs, ph)" by (cases st)
  show ?thesis
  proof (cases fs)
    case Nil
    then obtain xs where "ph = PDone (JArr xs)"
      using assms(1) st by (auto simp add: array_bottom_def)
    then show ?thesis using assms(2) st by simp
  next
    case (Cons f gs)
    have b: "array_bottom (f # gs, ph)" using assms(1) st Cons by simp
    show ?thesis
    proof (cases ph)
      case PValue
      then show ?thesis using assms(2) st Cons start_value_bottom [OF b] by simp
    next
      case PValueOrEnd
      then show ?thesis
        using assms(2) st Cons start_value_bottom [OF b] close_frame_bottom [OF b]
        by (auto split: if_splits)
    next
      case PKeyOrEnd
      then show ?thesis
        using assms(2) st Cons start_key_bottom [OF b] close_frame_bottom [OF b]
        by (auto split: if_splits)
    next
      case PKey
      then show ?thesis using assms(2) st Cons start_key_bottom [OF b] by simp
    next
      case PColon
      then have "st' = (f # gs, PValue)" using assms(2) st Cons by (auto split: if_splits)
      then show ?thesis using array_bottom_phase [OF b] by simp
    next
      case PAfter
      show ?thesis
      proof (cases "t = TComma")
        case True
        then have "st' = (f # gs, PValue) \<or> st' = (f # gs, PKey)"
          using assms(2) st Cons PAfter by (cases f) auto
        then show ?thesis using array_bottom_phase [OF b] by auto
      next
        case False
        then have "close_frame t (f # gs) = Some st'"
          using assms(2) st Cons PAfter by simp
        then show ?thesis using close_frame_bottom [OF b] by simp
      qed
    next
      case (PDone v)
      then show ?thesis using assms(2) st by simp
    qed
  qed
qed

lemma parse_run_bottom:
  "array_bottom st \<Longrightarrow> parse_run st ts = Some st' \<Longrightarrow> array_bottom st'"
proof (induction ts arbitrary: st)
  case Nil
  then show ?case by simp
next
  case (Cons t ts)
  then obtain st1 where s1: "parse_step st t = Some st1" "parse_run st1 ts = Some st'"
    by (auto split: option.splits)
  then show ?case using Cons.IH [of st1] Cons.prems(1) parse_step_bottom by blast
qed

lemma parse_bracket:
  assumes "JSON_parse (CHR ''['' # rest) = Inr v"
  shows "\<exists>xs. v = JArr xs"
proof -
  obtain ts where ts: "lex (CHR ''['' # rest) = Some ts"
    using assms by (auto simp add: JSON_parse_def split: option.splits)
  then obtain ts' where ts': "ts = TLBrack # ts'" using lex_bracket by blast
  have fin: "parse_run ([], PValue) ts = Some ([], PDone v)"
    using assms ts
    by (auto simp add: JSON_parse_def split: option.splits list.splits phase.splits prod.splits)
  then have "parse_run ([ArrF []], PValueOrEnd) ts' = Some ([], PDone v)"
    using ts' by simp
  moreover have "array_bottom ([ArrF []], PValueOrEnd)" by (simp add: array_bottom_def)
  ultimately have "array_bottom ([], PDone v)" using parse_run_bottom by blast
  then show ?thesis by (simp add: array_bottom_def)
qed

lemma stringify_array_opens: "\<exists>rest. JSON_stringify (JArr xs) = CHR ''['' # rest"
  by (simp add: JSON_stringify_def)

lemma parse_list_text:
  assumes "is_list_text t" and "t \<noteq> []" and "JSON_parse t = Inr v"
  shows "\<exists>xs. v = JArr xs"
proof -
  obtain ys where "t = JSON_stringify (JArr ys)" using assms(1,2) by (auto simp add: is_list_text_def)
  then obtain rest where "t = CHR ''['' # rest" using stringify_array_opens by metis
  then show ?thesis using assms(3) parse_bracket by blast
qed

section \<open>The list attributes\<close>

text \<open>
  The handlers are followed one by one: most leave the attributes alone, the others write
  the empty string or the text of an array they have extended or updated.
\<close>

lemma lists_ok_attrs: "attrs s' = attrs s \<Longrightarrow> lists_ok s \<Longrightarrow> lists_ok s'"
  by (simp add: lists_ok_def)

lemma is_list_text_stringify: "is_list_text (JSON_stringify (JArr xs))"
  by (auto simp add: is_list_text_def)

lemma is_list_text_empty: "is_list_text []"
  by (simp add: is_list_text_def)

lemma lists_ok_update:
  "lists_ok s \<Longrightarrow> is_list_text v \<Longrightarrow> attrs s' = (attrs s)(k := v) \<Longrightarrow> lists_ok s'"
  by (simp add: lists_ok_def)

lemma lists_ok_update_other:
  "lists_ok s \<Longrightarrow> k \<noteq> ''_js_layer_list'' \<Longrightarrow> k \<noteq> ''_js_interactive_drawn_graphic''
   \<Longrightarrow> attrs s' = (attrs s)(k := v) \<Longrightarrow> lists_ok s'"
  by (simp add: lists_ok_def)

lemma js_push_array: "js_push l x = Inr l2 \<Longrightarrow> \<exists>ys. l2 = JArr ys"
  by (cases l) auto

lemma append_to_list_lists:
  assumes "lists_ok s"
  shows "lists_ok (state_of (append_to_list k x s))"
proof (cases "read_list (attrs s k)")
  case (Inl e)
  then show ?thesis using assms by (simp add: append_to_list_def)
next
  case (Inr l)
  show ?thesis
  proof (cases "js_push l x")
    case (Inl e)
    then show ?thesis using assms Inr by (simp add: append_to_list_def)
  next
    case (Inr l2)
    then obtain ys where ys: "l2 = JArr ys" using js_push_array by blast
    have "attrs (state_of (append_to_list k x s)) = (attrs s)(k := JSON_stringify (JArr ys))"
      using \<open>read_list (attrs s k) = Inr l\<close> Inr ys by (simp add: append_to_list_def)
    then show ?thesis using assms is_list_text_stringify lists_ok_update by blast
  qed
qed

lemma set_last_array:
  "set_last l kvs (JArr xs) = Inr v \<Longrightarrow> \<exists>ys. v = JArr ys"
  by (auto simp add: set_last_def split: if_splits sum.splits)

lemma on_renderer_change_lists:
  assumes "lists_ok s"
  shows "lists_ok (state_of (on_renderer_change lo l s))"
proof (cases "on_renderer_change lo l s")
  case (Threw e s1)
  then have "s1 = s"
    by (auto simp add: on_renderer_change_def
          split: option.splits sum.splits bool.splits if_splits)
  then show ?thesis using assms Threw by simp
next
  case (Done s1)
  show ?thesis
  proof (cases "s1 = s")
    case True
    then show ?thesis using assms Done by simp
  next
    case False
    then obtain cur cur2 where c: "attrs s ''_js_layer_list'' \<noteq> []"
        "JSON_parse (attrs s ''_js_layer_list'') = Inr cur"
        "\<exists>kvs. set_last (lib s) kvs cur = Inr cur2"
        "s1 = touch (model_set ''_js_layer_list'' (JSON_stringify cur2) s)"
      using Done
      by (auto simp add: on_renderer_change_def
            split: option.splits sum.splits bool.splits if_splits)
    have "is_list_text (attrs s ''_js_layer_list'')" using assms by (simp add: lists_ok_def)
    then obtain xs where "cur = JArr xs" using parse_list_text c(1,2) by blast
    then obtain ys where "cur2 = JArr ys" using c(3) set_last_array by blast
    then have "attrs s1 = (attrs s)(''_js_layer_list'' := JSON_stringify (JArr ys))"
      using c(4) by simp
    then have "lists_ok s1" using assms is_list_text_stringify lists_ok_update by blast
    then show ?thesis using Done by simp
  qed
qed

lemma run_closure_lists: "lists_ok s \<Longrightarrow> lists_ok (state_of (run_closure n l c s))"
  by (cases c)
     (auto simp add: Let_def append_to_list_lists on_renderer_change_lists intro: lists_ok_attrs)

lemma simple_handlers_attrs [simp]:
  "attrs (state_of (zoom_changed s)) = attrs s"
  "attrs (state_of (remove_layer s)) = attrs s"
  "attrs (state_of (center_changed s)) = attrs s"
  "attrs (state_of (extent_changed s)) = attrs s"
  "attrs (state_of (start_time_changed s)) = attrs s"
  "attrs (state_of (end_time_changed s)) = attrs s"
  "attrs (state_of (gallerybasemaps_changed s)) = attrs s"
  "attrs (state_of (basemap_changed s)) = attrs s"
  "attrs (state_of (subscribe s)) = attrs s"
  "attrs (state_of (load_map s)) = attrs s"
  "attrs (state_of (mouse_clicked g s)) = attrs s"
  "attrs (state_of (onMouseClick g s)) = attrs s"
  "attrs (state_of (handle_click s)) = attrs s"
  by (simp_all add: zoom_changed_def remove_layer_def center_changed_def
        extent_changed_def start_time_changed_def end_time_changed_def
        gallerybasemaps_changed_def basemap_changed_def subscribe_def load_map_def Let_def
        mouse_clicked_def onMouseClick_def handle_click_def register_basemaps_fields
        split: sum.splits)

lemma render_attrs [simp]: "attrs (state_of (render s)) = attrs s"
  unfolding render_def Let_def
  by (auto split: sum.splits simp: subscribe_def
        intro!: state_of_andthen_rel [where R = "\<lambda>a b. attrs b = attrs a"])

lemma token_resolved_attrs [simp]: "attrs (state_of (token_resolved a b c s)) = attrs s"
  by (simp add: token_resolved_def split: sum.splits)

lemma layer_parts_attrs [simp]:
  "attrs (state_of (feature_options n cb lo s)) = attrs s"
  "attrs (state_of (feature_tail n cb nl lo2 s)) = attrs s"
  "attrs (state_of (imagery_tail n url opts op sw s)) = attrs s"
  "attrs (state_of (collection_options n cb lo s)) = attrs s"
  "attrs (add_plain_layer kind u s) = attrs s"
  by (simp_all add: feature_options_def feature_tail_def imagery_tail_def collection_options_def
        add_plain_layer_def Let_def split: sum.splits option.splits)

lemma add_feature_layer_attrs [simp]: "attrs (state_of (add_feature_layer cb nl s)) = attrs s"
  unfolding add_feature_layer_def Let_def
  by (auto split: sum.splits intro!: state_of_andthen_rel [where R = "\<lambda>a b. attrs b = attrs a"])

lemma add_imagery_layer_attrs [simp]: "attrs (state_of (add_imagery_layer nl s)) = attrs s"
  by (simp add: add_imagery_layer_def split: sum.splits)

lemma collection_tail_lists:
  "lists_ok s \<longrightarrow> lists_ok (state_of (collection_tail cb po nl s))"
proof (cases "js_get nl ''options''")
  case (Inl e)
  then show ?thesis
    by (auto simp add: collection_tail_def Let_def intro: lists_ok_attrs)
next
  case (Inr options)
  let ?n = "next_layer s"
  let ?s1 = "do_call (LayerSetInfoTemplate ?n)
                 ((do_call (NewFeatureCollectionLayer ?n nl po) s)\<lparr>next_layer := Suc ?n\<rparr>)"
  let ?x = "if is_nullish options then Done ?s1
                 else (case JSON_parse (js_to_string options) of
                         Inl e \<Rightarrow> Threw e ?s1
                       | Inr lyr_options \<Rightarrow> collection_options ?n cb lyr_options ?s1)"
  have a: "attrs (state_of ?x) = attrs s"
    by (simp split: sum.splits)
  have x: "lists_ok s \<longrightarrow> lists_ok (state_of ?x)"
    using a lists_ok_attrs by blast
  have f: "\<And>s2. lists_ok s2 \<longrightarrow> lists_ok (state_of (append_to_list ''_js_layer_list''
                         (collection_layer_dict (collection_layer (lib s) nl))
                         (do_call (AddLayer ?n) s2)))"
  proof
    fix s2 assume "lists_ok s2"
    then have "lists_ok (do_call (AddLayer ?n) s2)" using lists_ok_attrs [of "do_call (AddLayer ?n) s2" s2] by simp
    then show "lists_ok (state_of (append_to_list ''_js_layer_list''
                         (collection_layer_dict (collection_layer (lib s) nl))
                         (do_call (AddLayer ?n) s2)))"
      by (rule append_to_list_lists)
  qed
  have "lists_ok s \<longrightarrow> lists_ok (state_of (andthen ?x (\<lambda>s2. append_to_list ''_js_layer_list''
                         (collection_layer_dict (collection_layer (lib s) nl))
                         (do_call (AddLayer ?n) s2))))"
    by (rule state_of_andthen_rel [where R = "\<lambda>a b. lists_ok a \<longrightarrow> lists_ok b", OF x f])
       blast
  then show ?thesis using Inr by (simp add: collection_tail_def Let_def)
qed

lemma add_collection_layer_lists:
  "lists_ok s \<Longrightarrow> lists_ok (state_of (add_collection_layer cb nl s))"
  using collection_tail_lists
  by (auto simp add: add_collection_layer_def split: sum.splits bool.splits if_splits)

lemma layer_changed_lists: "lists_ok s \<Longrightarrow> lists_ok (state_of (layer_changed s))"
  using add_collection_layer_lists
  by (auto simp add: layer_changed_def split: sum.splits intro: lists_ok_attrs)

lemma mode_changed_lists: "lists_ok s \<Longrightarrow> lists_ok (state_of (mode_changed s))"
  by (auto simp add: mode_changed_def lists_ok_def is_list_text_empty split: sum.splits)

lemma sync_all_lists: "lists_ok s \<longrightarrow> lists_ok (state_of (sync_all s))"
  unfolding sync_all_def
  by (intro state_of_andthen_rel [where R = "\<lambda>a b. lists_ok a \<longrightarrow> lists_ok b"])
     (auto simp add: mode_changed_lists layer_changed_lists intro: lists_ok_attrs)

lemma map_arrival_lists:
  "lists_ok s \<Longrightarrow> lists_ok (state_of (on_load s))"
  "lists_ok s \<Longrightarrow> lists_ok (state_of (createMap_resolved s))"
  using sync_all_lists
  by (auto simp add: on_load_def createMap_resolved_def lists_ok_def)


lemma fire_lists:
  assumes "\<And>h s. h \<in> set hs \<Longrightarrow> lists_ok s \<longrightarrow> lists_ok (state_of (h s))"
  shows "lists_ok s \<longrightarrow> lists_ok (state_of (fire hs s))"
  by (rule state_of_fire_rel [where R = "\<lambda>a b. lists_ok a \<longrightarrow> lists_ok b"])
     (use assms in blast)+

lemma draw_end_lists: "lists_ok s \<longrightarrow> lists_ok (state_of (draw_end g s))"
proof -
  let ?x = "if attrs s ''mode'' = ''navigate'' then Done s
        else fire (map (\<lambda>k. mode_changed) (filter (\<lambda>k. k = ''mode'') (model_on s)))
               (model_set ''mode'' ''navigate'' s)"
  have m: "lists_ok s \<longrightarrow> lists_ok (model_set ''mode'' ''navigate'' s)"
    by (simp add: lists_ok_def)
  have f: "lists_ok (model_set ''mode'' ''navigate'' s) \<longrightarrow>
           lists_ok (state_of (fire (map (\<lambda>k. mode_changed) (filter (\<lambda>k. k = ''mode'') (model_on s)))
               (model_set ''mode'' ''navigate'' s)))"
    by (rule fire_lists) (auto simp add: mode_changed_lists)
  have x: "lists_ok s \<longrightarrow> lists_ok (state_of ?x)"
    using m f by simp
  have "lists_ok s \<longrightarrow> lists_ok (state_of (andthen ?x (\<lambda>s1. Done (send ''draw-end'' g (touch s1)))))"
    by (rule state_of_andthen_rel [where R = "\<lambda>a b. lists_ok a \<longrightarrow> lists_ok b", OF x])
       (auto simp add: lists_ok_def)
  then show ?thesis by (simp add: draw_end_def)
qed

lemma onDrawEnd_lists: "lists_ok s \<longrightarrow> lists_ok (state_of (onDrawEnd g s))"
proof -
  let ?s1 = "do_call ToolbarDeactivate
                   (do_call (GraphicsAdd g (new_SimpleFillSymbol (lib s))) s)"
  have a: "lists_ok s \<longrightarrow> lists_ok ?s1" by (simp add: lists_ok_def)
  have x: "lists_ok s \<longrightarrow> lists_ok (state_of (draw_end g ?s1))"
    using a draw_end_lists by blast
  have "lists_ok s \<longrightarrow> lists_ok (state_of (andthen (draw_end g ?s1)
             (append_to_list ''_js_interactive_drawn_graphic''
                (JObj [(''geometry'', g), (''symbol'', new_SimpleFillSymbol (lib s))]))))"
    by (rule state_of_andthen_rel [where R = "\<lambda>a b. lists_ok a \<longrightarrow> lists_ok b", OF x])
       (auto simp add: append_to_list_lists)
  then show ?thesis by (simp add: onDrawEnd_def lists_ok_def)
qed

lemma map_handler_lists: "lists_ok s \<longrightarrow> lists_ok (state_of (map_handler ev s))"
proof (cases ev)
  case Load
  then show ?thesis using map_arrival_lists(1) by simp
next
  case (Click p)
  then show ?thesis using lists_ok_attrs [of "state_of (onMouseClick p s)" s] by simp
next
  case (ExtentChange x z)
  then show ?thesis by (simp add: onExtentChange_def extent_change_def lists_ok_def)
next
  case MouseDragStart
  then show ?thesis by (simp add: lists_ok_def)
next
  case MouseOut
  then show ?thesis by (simp add: lists_ok_def)
next
  case (BasemapChange ls)
  then show ?thesis by (simp add: on_basemap_change_def lists_ok_def)
qed

lemma model_handler_cases:
  "model_handler k = mode_changed \<or> model_handler k = layer_changed
   \<or> (\<forall>s. attrs (state_of (model_handler k s)) = attrs s)"
  by (simp add: model_handler_def)

lemma model_handler_lists: "lists_ok s \<longrightarrow> lists_ok (state_of (model_handler k s))"
  using model_handler_cases [of k] mode_changed_lists layer_changed_lists lists_ok_attrs
  by metis

lemma changed_lists: "lists_ok s \<longrightarrow> lists_ok (state_of (changed k s))"
  unfolding changed_def
  by (rule fire_lists) (auto simp add: model_handler_lists)

lemma kernel_change_lists:
  "lists_ok s \<Longrightarrow> conforming (ModelChanged c) \<Longrightarrow> lists_ok (state_of (kernel_change c s))"
proof (cases c)
  case (StrAttr k v)
  assume l: "lists_ok s" and c: "conforming (ModelChanged c)"
  have "lists_ok (s\<lparr>attrs := (attrs s)(k := v), kernel := (kernel s)(k := v)\<rparr>)"
    using l c StrAttr by (auto simp add: lists_ok_def split: if_splits)
  then show ?thesis using l StrAttr changed_lists by auto
next
  case (CenterAttr x)
  assume l: "lists_ok s"
  then have "lists_ok (s\<lparr>center := x\<rparr>)" by (simp add: lists_ok_def)
  then show ?thesis using l CenterAttr changed_lists by auto
next
  case (ZoomAttr x)
  assume l: "lists_ok s"
  then have "lists_ok (s\<lparr>zoom := x\<rparr>)" by (simp add: lists_ok_def)
  then show ?thesis using l ZoomAttr changed_lists by auto
next
  case (GalleryAttr x)
  assume l: "lists_ok s"
  then have "lists_ok (s\<lparr>gallerybasemaps := x\<rparr>)" by (simp add: lists_ok_def)
  then show ?thesis using l GalleryAttr changed_lists by auto
next
  case (GalleryDefsAttr x)
  assume l: "lists_ok s"
  then show ?thesis using GalleryDefsAttr by (simp add: lists_ok_def)
qed

lemma react_lists:
  assumes "lists_ok s" and "conforming e"
  shows "lists_ok (state_of (react e s))"
proof (cases e)
  case Render
  then show ?thesis using assms lists_ok_attrs [of "state_of (render s)" s] by simp
next
  case (TokenResolved a b c)
  then show ?thesis using assms
      lists_ok_attrs [of "state_of (token_resolved a b c
             (s\<lparr>token_pending := remove1 (a, b) (token_pending s)\<rparr>))" s]
    by simp
next
  case (TokenRejected a b)
  then show ?thesis using assms by (simp add: lists_ok_def)
next
  case CreateMapResolved
  have "lists_ok (s\<lparr>createMap_pending := createMap_pending s - 1\<rparr>)"
    using assms by (simp add: lists_ok_def)
  then show ?thesis using CreateMapResolved assms map_arrival_lists(2) by simp
next
  case CreateMapRejected
  then show ?thesis using assms by (simp add: lists_ok_def)
next
  case (MapEvent ev)
  have "lists_ok s \<longrightarrow> lists_ok (state_of (fire (map (\<lambda>n. map_handler ev)
           (filter (\<lambda>n. n = map_event_name ev) (map_on s))) s))"
    by (rule fire_lists) (auto simp add: map_handler_lists)
  then show ?thesis using MapEvent assms by simp
next
  case (ToolbarDrawEnd g)
  have "lists_ok s \<longrightarrow> lists_ok (state_of (fire (map (\<lambda>n. onDrawEnd g)
           (filter (\<lambda>n. n = ''draw-end'') (toolbar_on s))) s))"
    by (rule fire_lists) (auto simp add: onDrawEnd_lists)
  then show ?thesis using ToolbarDrawEnd assms by simp
next
  case (LayerEvent n name l)
  have "lists_ok s \<longrightarrow> lists_ok (state_of (fire (map (\<lambda>h. run_closure n l (snd (snd h)))
             (filter (\<lambda>h. fst h = n \<and> fst (snd h) = name) (layer_on s))) s))"
    by (rule fire_lists) (auto simp add: run_closure_lists)
  then show ?thesis using LayerEvent assms by simp
next
  case (ModelChanged c)
  then show ?thesis using assms kernel_change_lists by simp
next
  case DomClick
  then show ?thesis using assms lists_ok_attrs [of "state_of (handle_click s)" s] by simp
qed

lemma run_lists: "lists_ok s \<Longrightarrow> list_all conforming es \<Longrightarrow> lists_ok (run es s)"
  by (induction es arbitrary: s) (auto simp add: react_lists)


lemma append_to_list_writes_array:
  "append_to_list k x s = Done s' \<Longrightarrow> \<exists>ys. attrs s' k = JSON_stringify (JArr ys)"
  using js_push_array
  by (fastforce simp add: append_to_list_def split: sum.splits)

lemma on_renderer_change_empty:
  "attrs s ''_js_layer_list'' = [] \<Longrightarrow> state_of (on_renderer_change lo l s) = s"
  by (simp add: on_renderer_change_def split: option.splits sum.splits bool.splits)

text \<open>
  Claim C1. The attributes \<^verbatim>\<open>_js_layer_list\<close> and \<^verbatim>\<open>_js_interactive_drawn_graphic\<close>
  hold the empty string or the JSON text of an array: from a state where they do, through
  any run in which the kernel itself puts nothing else there, they do after every
  stimulus, so every value the view writes there is of that form. An appending write is
  the text of an array whatever was there before. Where the view reads a list to append
  to it, the empty string stands for the empty list; the renderer-change handler, which
  updates the last record, leaves the state as it is when the list is the empty string.
  With a map, the mode \<^verbatim>\<open>###clear_graphics\<close> resets
  \<^verbatim>\<open>_js_interactive_drawn_graphic\<close> to the empty string.
\<close>

theorem list_attributes_hold_lists:
  "(lists_ok s \<and> list_all conforming es \<longrightarrow> lists_ok (run es s))
   \<and> (\<forall>s'. append_to_list k x s1 = Done s' \<longrightarrow> (\<exists>ys. attrs s' k = JSON_stringify (JArr ys)))
   \<and> read_list [] = Inr (JArr [])
   \<and> (attrs s2 ''_js_layer_list'' = [] \<longrightarrow> state_of (on_renderer_change lo l s2) = s2)
   \<and> (has_map s3 \<and> attrs s3 ''mode'' = ''###clear_graphics'' \<longrightarrow>
        (\<exists>s'. mode_changed s3 = Done s' \<and> attrs s' ''_js_interactive_drawn_graphic'' = []))"
proof -
  have a: "lists_ok s \<and> list_all conforming es \<longrightarrow> lists_ok (run es s)"
    using run_lists by blast
  have b: "\<forall>s'. append_to_list k x s1 = Done s' \<longrightarrow> (\<exists>ys. attrs s' k = JSON_stringify (JArr ys))"
    using append_to_list_writes_array by blast
  have c: "read_list [] = Inr (JArr [])"
    by (simp add: read_list_def)
  have d: "attrs s2 ''_js_layer_list'' = [] \<longrightarrow> state_of (on_renderer_change lo l s2) = s2"
    using on_renderer_change_empty by blast
  have e: "has_map s3 \<and> attrs s3 ''mode'' = ''###clear_graphics'' \<longrightarrow>
        (\<exists>s'. mode_changed s3 = Done s' \<and> attrs s' ''_js_interactive_drawn_graphic'' = [])"
    by (simp add: mode_changed_def)
  show ?thesis using a b c d e by blast
qed

text \<open>
  An instance: the view is rendered, its map loads, the kernel sets a drawing mode and
  a point is drawn. The drawn-graphics attribute then holds a one-element array, and it
  is cleared from the state where the kernel has asked for that.
\<close>

theorem list_attributes_hold_lists_witness:
  \<open>lists_ok view0
   \<and> list_all conforming [Render, MapEvent Load, ModelChanged (StrAttr ''mode'' ''polygon''),
                            ToolbarDrawEnd point0]
   \<and> lists_ok (run [Render, MapEvent Load, ModelChanged (StrAttr ''mode'' ''polygon''),
                      ToolbarDrawEnd point0] view0)
   \<and> attrs (run [Render, MapEvent Load, ModelChanged (StrAttr ''mode'' ''polygon''),
                   ToolbarDrawEnd point0] view0) ''_js_interactive_drawn_graphic''
       = ''[{"geometry":{"x":-118.2,"y":34.1},"symbol":{"type":"simplefillsymbol"}}]''
   \<and> (\<exists>s'. append_to_list ''_js_layer_list'' point0 view1 = Done s'
          \<and> (\<exists>ys. attrs s' ''_js_layer_list'' = JSON_stringify (JArr ys)))
   \<and> attrs view1 ''_js_layer_list'' = []
   \<and> state_of (on_renderer_change (Some options_classed) layer0 view1) = view1
   \<and> has_map view_clearing \<and> attrs view_clearing ''mode'' = ''###clear_graphics''
   \<and> attrs view_clearing ''_js_interactive_drawn_graphic'' \<noteq> []
   \<and> (\<exists>s'. mode_changed view_clearing = Done s'
          \<and> attrs s' ''_js_interactive_drawn_graphic'' = [])\<close>
proof -
  let ?es = "[Render, MapEvent Load, ModelChanged (StrAttr ''mode'' ''polygon''),
              ToolbarDrawEnd point0]"
  have a: "lists_ok view0"
    by (simp add: lists_ok_def is_list_text_def view0_def)
  have b: "list_all conforming ?es"
    by simp
  have c: \<open>attrs (run ?es view0) ''_js_interactive_drawn_graphic''
             = ''[{"geometry":{"x":-118.2,"y":34.1},"symbol":{"type":"simplefillsymbol"}}]''\<close>
    by code_simp
  have d: "\<exists>s'. append_to_list ''_js_layer_list'' point0 view1 = Done s'"
    by (simp add: append_to_list_def read_list_def view1_def view0_def)
  have e: "attrs view1 ''_js_layer_list'' = []"
    by (simp add: view1_def view0_def)
  have f: "has_map view_clearing"
    by code_simp
  have g: "attrs view_clearing ''mode'' = ''###clear_graphics''"
    by (simp add: view_clearing_def)
  have h: "attrs view_clearing ''_js_interactive_drawn_graphic'' \<noteq> []"
    by code_simp
  note t = list_attributes_hold_lists [of view0 ?es "''_js_layer_list''" point0 view1 view1
             "Some options_classed" layer0 view_clearing]
  show ?thesis
    using a b c d e f g h t by blast
qed

end
